theory Spec2Isabelle
  imports Main "HOL-Library.Multiset" "HOL-Library.AList"
begin

section \<open>Data model (package config, the configuration types)\<close>

text \<open>
  Go structs are records and Go strings are byte lists (\<open>string\<close>). A field name that
  occurs in more than one Go struct carries the struct's name as a prefix here
  (\<open>Cluster.Namespace\<close> is \<open>clusterNamespace\<close>, \<open>Context.Server\<close> is \<open>ctxServer\<close>).
  \<open>APIServer\<close> has the three fields of its declaration and the two further fields that
  the default resolution assigns (\<open>PerformanceTokenEndpoint\<close>,
  \<open>RegistryRegistrationEndpoint\<close>).
\<close>

record APIServer =
  ApplicationsEndpoint :: string
  ExperimentsEndpoint :: string
  AccountsEndpoint :: string
  PerformanceTokenEndpoint :: string
  RegistryRegistrationEndpoint :: string

record ApplicationServer =
  BaseURL :: string
  AuthSuccessEndpoint :: string

record AuthorizationServer =
  Issuer :: string
  AuthorizationEndpoint :: string
  TokenEndpoint :: string
  RevocationEndpoint :: string
  RegistrationEndpoint :: string
  DeviceAuthorizationEndpoint :: string
  JSONWebKeySetURI :: string

record Server =
  Identifier :: string
  API :: APIServer
  serverAuthorization :: AuthorizationServer
  Application :: ApplicationServer

text \<open>
  \<open>time.Time\<close> of the Go library: an instant (nanoseconds after the zero instant,
  January 1 of year 1, 00:00:00 UTC) and a location (\<open>''''\<close> for UTC). The zero value
  of the type is \<open>zeroTime\<close>; \<open>IsZero\<close> looks at the instant only.
\<close>

record Time =
  instant :: int
  location :: string

definition zeroTime :: Time where
  "zeroTime = \<lparr>instant = 0, location = ''''\<rparr>"



record TokenCredential =
  AccessToken :: string
  TokenType :: string
  RefreshToken :: string
  Expiry :: Time

record ClientCredential =
  ClientID :: string
  ClientSecret :: string
  Scope :: string

text \<open>
  \<open>Credential\<close> embeds two pointers; a nil pointer is \<open>None\<close>. Both may be set at
  once: the struct does not exclude it.
\<close>

record Credential =
  Token :: "TokenCredential option"
  Client :: "ClientCredential option"

record Authorization =
  Credential :: Credential

record Cluster =
  KubeConfig :: string
  clusterContext :: string
  clusterNamespace :: string
  Bin :: string
  clusterController :: string

text \<open>\<open>ControllerEnvVar{Name, Value}\<close> is the pair \<open>(Name, Value)\<close>.\<close>

type_synonym ControllerEnvVar = "string \<times> string"

record Controller =
  DeploymentName :: string
  controllerNamespace :: string
  RegistrationClientURI :: string
  RegistrationAccessToken :: string
  Env :: "ControllerEnvVar list"

record Context =
  ctxServer :: string
  ctxAuthorization :: string
  ctxCluster :: string

text \<open>
  \<open>NamedServer{Name, Server}\<close> and its four siblings are pairs of the name and the
  named value.
\<close>

type_synonym NamedServer = "string \<times> Server"
type_synonym NamedAuthorization = "string \<times> Authorization"
type_synonym NamedCluster = "string \<times> Cluster"
type_synonym NamedController = "string \<times> Controller"
type_synonym NamedContext = "string \<times> Context"

record Config =
  Servers :: "NamedServer list"
  Authorizations :: "NamedAuthorization list"
  Clusters :: "NamedCluster list"
  Controllers :: "NamedController list"
  Contexts :: "NamedContext list"
  CurrentContext :: string
  Environment :: string

text \<open>The zero values of the structs.\<close>

definition emptyAPIServer :: APIServer where
  "emptyAPIServer = \<lparr>ApplicationsEndpoint = '''', ExperimentsEndpoint = '''',
     AccountsEndpoint = '''', PerformanceTokenEndpoint = '''',
     RegistryRegistrationEndpoint = ''''\<rparr>"

definition emptyAuthorizationServer :: AuthorizationServer where
  "emptyAuthorizationServer = \<lparr>Issuer = '''', AuthorizationEndpoint = '''',
     TokenEndpoint = '''', RevocationEndpoint = '''', RegistrationEndpoint = '''',
     DeviceAuthorizationEndpoint = '''', JSONWebKeySetURI = ''''\<rparr>"

definition emptyApplicationServer :: ApplicationServer where
  "emptyApplicationServer = \<lparr>BaseURL = '''', AuthSuccessEndpoint = ''''\<rparr>"

definition emptyServer :: Server where
  "emptyServer = \<lparr>Identifier = '''', API = emptyAPIServer,
     serverAuthorization = emptyAuthorizationServer, Application = emptyApplicationServer\<rparr>"

definition emptyCredential :: Credential where
  "emptyCredential = \<lparr>Token = None, Client = None\<rparr>"

definition emptyAuthorization :: Authorization where
  "emptyAuthorization = \<lparr>Credential = emptyCredential\<rparr>"

definition emptyTokenCredential :: TokenCredential where
  "emptyTokenCredential = \<lparr>AccessToken = '''', TokenType = '''', RefreshToken = '''',
     Expiry = zeroTime\<rparr>"

definition emptyClientCredential :: ClientCredential where
  "emptyClientCredential = \<lparr>ClientID = '''', ClientSecret = '''', Scope = ''''\<rparr>"

definition emptyCluster :: Cluster where
  "emptyCluster = \<lparr>KubeConfig = '''', clusterContext = '''', clusterNamespace = '''',
     Bin = '''', clusterController = ''''\<rparr>"

definition emptyController :: Controller where
  "emptyController = \<lparr>DeploymentName = '''', controllerNamespace = '''',
     RegistrationClientURI = '''', RegistrationAccessToken = '''', Env = []\<rparr>"

definition emptyContext :: Context where
  "emptyContext = \<lparr>ctxServer = '''', ctxAuthorization = '''', ctxCluster = ''''\<rparr>"

definition emptyConfig :: Config where
  "emptyConfig = \<lparr>Servers = [], Authorizations = [], Clusters = [], Controllers = [],
     Contexts = [], CurrentContext = '''', Environment = ''''\<rparr>"

section \<open>Go maps\<close>

text \<open>
  A Go \<open>map[string]V\<close> is an association list with distinct keys: \<open>m[k] = v\<close> is
  \<open>AList.update k v m\<close>, \<open>delete(m, k)\<close> is \<open>AList.delete k m\<close>, a lookup is
  \<open>map_of m k\<close>. The order in which \<open>range\<close> visits a map is not specified by the
  language and changes from one run to the next, so it is a parameter: \<open>ord\<close> is
  given the keys of the map and returns them in the order of the visit. Any
  permutation of the keys is a possible order (\<open>map_iteration\<close>).
\<close>

type_synonym 'v gomap = "(string \<times> 'v) list"

type_synonym order = "string list \<Rightarrow> string list"

definition map_iteration :: "order \<Rightarrow> bool" where
  "map_iteration ord = (\<forall>ks. mset (ord ks) = mset ks)"

definition rangeMap :: "order \<Rightarrow> 'v gomap \<Rightarrow> (string \<times> 'v) list" where
  "rangeMap ord m =
     concat (map (\<lambda>k. case map_of m k of Some v \<Rightarrow> [(k, v)] | None \<Rightarrow> [])
               (ord (map fst m)))"

section \<open>Merge (merge.go)\<close>

definition mergeString :: "string \<Rightarrow> string \<Rightarrow> string" where
  "mergeString s1 s2 = (if s2 \<noteq> '''' then s2 else s1)"

definition mergeServer :: "Server \<Rightarrow> Server \<Rightarrow> Server" where
  "mergeServer s1 s2 = s1\<lparr>
     Identifier := mergeString (Identifier s1) (Identifier s2),
     API := (API s1)\<lparr>
       AccountsEndpoint := mergeString (AccountsEndpoint (API s1)) (AccountsEndpoint (API s2)),
       ExperimentsEndpoint :=
         mergeString (ExperimentsEndpoint (API s1)) (ExperimentsEndpoint (API s2))\<rparr>,
     serverAuthorization := (serverAuthorization s1)\<lparr>
       Issuer := mergeString (Issuer (serverAuthorization s1)) (Issuer (serverAuthorization s2)),
       AuthorizationEndpoint := mergeString (AuthorizationEndpoint (serverAuthorization s1))
         (AuthorizationEndpoint (serverAuthorization s2)),
       TokenEndpoint := mergeString (TokenEndpoint (serverAuthorization s1))
         (TokenEndpoint (serverAuthorization s2)),
       RevocationEndpoint := mergeString (RevocationEndpoint (serverAuthorization s1))
         (RevocationEndpoint (serverAuthorization s2)),
       RegistrationEndpoint := mergeString (RegistrationEndpoint (serverAuthorization s1))
         (RegistrationEndpoint (serverAuthorization s2)),
       DeviceAuthorizationEndpoint :=
         mergeString (DeviceAuthorizationEndpoint (serverAuthorization s1))
           (DeviceAuthorizationEndpoint (serverAuthorization s2)),
       JSONWebKeySetURI := mergeString (JSONWebKeySetURI (serverAuthorization s1))
         (JSONWebKeySetURI (serverAuthorization s2))\<rparr>,
     Application := (Application s1)\<lparr>
       BaseURL := mergeString (BaseURL (Application s1)) (BaseURL (Application s2)),
       AuthSuccessEndpoint := mergeString (AuthSuccessEndpoint (Application s1))
         (AuthSuccessEndpoint (Application s2))\<rparr>\<rparr>"

text \<open>
  \<open>mergeAuthorization\<close>: two \<open>if\<close> statements, one after the other. The promoted
  fields \<open>a2.Credential.AccessToken\<close> and \<open>a2.Credential.ClientID\<close> are read only
  behind the nil test of their pointer.
\<close>

definition tokenPresent :: "Authorization \<Rightarrow> bool" where
  "tokenPresent a =
     (case Token (Credential a) of None \<Rightarrow> False | Some tc \<Rightarrow> AccessToken tc \<noteq> '''')"

definition clientPresent :: "Authorization \<Rightarrow> bool" where
  "clientPresent a =
     (case Client (Credential a) of None \<Rightarrow> False | Some cc \<Rightarrow> ClientID cc \<noteq> '''')"

definition mergeAuthorization :: "Authorization \<Rightarrow> Authorization \<Rightarrow> Authorization" where
  "mergeAuthorization a1 a2 =
     (let a1' = (if tokenPresent a2
                 then a1\<lparr>Credential := \<lparr>Token = Token (Credential a2), Client = None\<rparr>\<rparr>
                 else a1)
      in if clientPresent a2
         then a1'\<lparr>Credential := \<lparr>Token = None, Client = Client (Credential a2)\<rparr>\<rparr>
         else a1')"

definition mergeCluster :: "Cluster \<Rightarrow> Cluster \<Rightarrow> Cluster" where
  "mergeCluster c1 c2 = \<lparr>
     KubeConfig = mergeString (KubeConfig c1) (KubeConfig c2),
     clusterContext = mergeString (clusterContext c1) (clusterContext c2),
     clusterNamespace = mergeString (clusterNamespace c1) (clusterNamespace c2),
     Bin = mergeString (Bin c1) (Bin c2),
     clusterController = mergeString (clusterController c1) (clusterController c2)\<rparr>"

text \<open>
  The index of a merge: the overlay's entries stored one after the other under their
  names, a later entry replacing an earlier one of the same name.
\<close>

definition buildIndex :: "(string \<times> 'v) list \<Rightarrow> 'v gomap" where
  "buildIndex xs = foldl (\<lambda>m (k, v). AList.update k v m) [] xs"

text \<open>
  The second loop of \<open>mergeController\<close>. \<open>idx[name]\<close> of a \<open>map[string]string\<close> is
  the empty string when the key is absent, so the test \<open>v != ""\<close> fails both for an
  absent name and for a name stored with the empty value.
\<close>

definition lookupString :: "string gomap \<Rightarrow> string \<Rightarrow> string" where
  "lookupString idx k = (case map_of idx k of None \<Rightarrow> '''' | Some v \<Rightarrow> v)"

fun mergeEnvLoop ::
  "ControllerEnvVar list \<Rightarrow> string gomap \<Rightarrow> ControllerEnvVar list \<times> string gomap" where
  "mergeEnvLoop [] idx = ([], idx)"
| "mergeEnvLoop ((n, v1) # rest) idx =
     (let v = lookupString idx n in
      if v \<noteq> ''''
      then (let (rest', idx') = mergeEnvLoop rest (AList.delete n idx)
            in ((n, v) # rest', idx'))
      else (let (rest', idx') = mergeEnvLoop rest idx
            in ((n, v1) # rest', idx')))"

definition mergeController :: "order \<Rightarrow> Controller \<Rightarrow> Controller \<Rightarrow> Controller" where
  "mergeController ord c1 c2 =
     (let (env', idx) = mergeEnvLoop (Env c1) (buildIndex (Env c2)) in \<lparr>
        DeploymentName = DeploymentName c1,
        controllerNamespace = mergeString (controllerNamespace c1) (controllerNamespace c2),
        RegistrationClientURI =
          mergeString (RegistrationClientURI c1) (RegistrationClientURI c2),
        RegistrationAccessToken =
          mergeString (RegistrationAccessToken c1) (RegistrationAccessToken c2),
        Env = env' @ rangeMap ord idx\<rparr>)"

definition mergeContext :: "Context \<Rightarrow> Context \<Rightarrow> Context" where
  "mergeContext c1 c2 = \<lparr>
     ctxServer = mergeString (ctxServer c1) (ctxServer c2),
     ctxAuthorization = mergeString (ctxAuthorization c1) (ctxAuthorization c2),
     ctxCluster = mergeString (ctxCluster c1) (ctxCluster c2)\<rparr>"

text \<open>
  The five list merges (\<open>mergeServers\<close> to \<open>mergeContexts\<close>) are the same three
  loops over different element types: build the index of the overlay, merge every base
  entry whose name is in the index and delete the name from it, append what is left of
  the index in the order \<open>range\<close> visits it. \<open>mergeLoop\<close> is the second loop: the
  \<open>name\<close> argument lets the element merge depend on the entry's name (only the order
  of the environment map of a controller uses it).

  The functions are given values and return values. In Go an appended controller
  shares the array of its \<open>Env\<close> slice with the overlay's controller; a merge reads
  the overlay's slice into its index before it writes to the base, so the base that a
  merge leaves is the one computed on the values.
\<close>

fun mergeLoop ::
  "(string \<Rightarrow> 'v \<Rightarrow> 'v \<Rightarrow> 'v) \<Rightarrow> (string \<times> 'v) list \<Rightarrow> 'v gomap \<Rightarrow>
     (string \<times> 'v) list \<times> 'v gomap" where
  "mergeLoop f [] idx = ([], idx)"
| "mergeLoop f ((n, b) # rest) idx =
     (case map_of idx n of
        Some v \<Rightarrow> (let (rest', idx') = mergeLoop f rest (AList.delete n idx)
                   in ((n, f n b v) # rest', idx'))
      | None \<Rightarrow> (let (rest', idx') = mergeLoop f rest idx
                 in ((n, b) # rest', idx')))"

definition mergeNamed ::
  "order \<Rightarrow> (string \<Rightarrow> 'v \<Rightarrow> 'v \<Rightarrow> 'v) \<Rightarrow> (string \<times> 'v) list \<Rightarrow> (string \<times> 'v) list \<Rightarrow>
     (string \<times> 'v) list" where
  "mergeNamed ord f base overlay =
     (let (base', idx) = mergeLoop f base (buildIndex overlay)
      in base' @ rangeMap ord idx)"

text \<open>
  The orders of one \<open>mergeConfig\<close>: one for the index of each list, and one for the
  environment index of each controller that is merged (by the controller's name: a
  name is merged at most once in a call).
\<close>

record orders =
  serversOrd :: order
  authorizationsOrd :: order
  clustersOrd :: order
  controllersOrd :: order
  contextsOrd :: order
  envOrd :: "string \<Rightarrow> order"

definition mergeServers :: "order \<Rightarrow> Config \<Rightarrow> NamedServer list \<Rightarrow> Config" where
  "mergeServers ord data servers =
     data\<lparr>Servers := mergeNamed ord (\<lambda>_. mergeServer) (Servers data) servers\<rparr>"

definition mergeAuthorizations :: "order \<Rightarrow> Config \<Rightarrow> NamedAuthorization list \<Rightarrow> Config" where
  "mergeAuthorizations ord data authorizations =
     data\<lparr>Authorizations :=
       mergeNamed ord (\<lambda>_. mergeAuthorization) (Authorizations data) authorizations\<rparr>"

definition mergeClusters :: "order \<Rightarrow> Config \<Rightarrow> NamedCluster list \<Rightarrow> Config" where
  "mergeClusters ord data clusters =
     data\<lparr>Clusters := mergeNamed ord (\<lambda>_. mergeCluster) (Clusters data) clusters\<rparr>"

definition mergeControllers ::
  "order \<Rightarrow> (string \<Rightarrow> order) \<Rightarrow> Config \<Rightarrow> NamedController list \<Rightarrow> Config" where
  "mergeControllers ord eord data controllers =
     data\<lparr>Controllers :=
       mergeNamed ord (\<lambda>n. mergeController (eord n)) (Controllers data) controllers\<rparr>"

definition mergeContexts :: "order \<Rightarrow> Config \<Rightarrow> NamedContext list \<Rightarrow> Config" where
  "mergeContexts ord data contexts =
     data\<lparr>Contexts := mergeNamed ord (\<lambda>_. mergeContext) (Contexts data) contexts\<rparr>"

definition mergeConfig :: "orders \<Rightarrow> Config \<Rightarrow> Config \<Rightarrow> Config" where
  "mergeConfig os c1 c2 =
     (let d1 = mergeServers (serversOrd os) c1 (Servers c2);
          d2 = mergeAuthorizations (authorizationsOrd os) d1 (Authorizations c2);
          d3 = mergeClusters (clustersOrd os) d2 (Clusters c2);
          d4 = mergeControllers (controllersOrd os) (envOrd os) d3 (Controllers c2);
          d5 = mergeContexts (contextsOrd os) d4 (Contexts c2);
          d6 = d5\<lparr>CurrentContext := mergeString (CurrentContext d5) (CurrentContext c2)\<rparr>
      in d6\<lparr>Environment := mergeString (Environment d6) (Environment c2)\<rparr>)"

definition orders_ok :: "orders \<Rightarrow> bool" where
  "orders_ok os =
     (map_iteration (serversOrd os) \<and> map_iteration (authorizationsOrd os) \<and>
      map_iteration (clustersOrd os) \<and> map_iteration (controllersOrd os) \<and>
      map_iteration (contextsOrd os) \<and> (\<forall>n. map_iteration (envOrd os n)))"

text \<open>
  What a merge of one named list keeps. \<open>keepsBaseOnly\<close>: the result starts with
  entries of the base's names, in the base's order, and an entry of the base whose name
  the overlay does not have is the same entry at the same position.
  \<open>appendsOverlayOnly\<close>: what follows the base's entries has every name once, and
  holds the overlay's entries of the names the base does not have, each name with its
  last entry in the overlay. \<open>appendsInOrder\<close>: what follows is those entries of
  the overlay in the overlay's order.
\<close>

definition keepsBaseOnly ::
  "(string \<times> 'v) list \<Rightarrow> (string \<times> 'v) list \<Rightarrow> (string \<times> 'v) list \<Rightarrow> bool" where
  "keepsBaseOnly base overlay result =
     (length base \<le> length result \<and>
      map fst (take (length base) result) = map fst base \<and>
      (\<forall>i<length base. fst (base ! i) \<notin> fst ` set overlay \<longrightarrow> result ! i = base ! i))"

definition appendsOverlayOnly ::
  "(string \<times> 'v) list \<Rightarrow> (string \<times> 'v) list \<Rightarrow> (string \<times> 'v) list \<Rightarrow> bool" where
  "appendsOverlayOnly base overlay result =
     (let app = drop (length base) result in
      distinct (map fst app) \<and>
      set app = set (filter (\<lambda>(n, v). n \<notin> fst ` set base \<and> map_of (rev overlay) n = Some v)
                      overlay) \<and>
      (distinct (map fst overlay) \<longrightarrow>
        mset app = mset (filter (\<lambda>(n, v). n \<notin> fst ` set base) overlay)))"

definition appendsInOrder ::
  "(string \<times> 'v) list \<Rightarrow> (string \<times> 'v) list \<Rightarrow> (string \<times> 'v) list \<Rightarrow> bool" where
  "appendsInOrder base overlay result =
     (drop (length base) result = filter (\<lambda>(n, v). n \<notin> fst ` set base) overlay)"

text \<open>
  An overlay whose merge can be repeated: every authorization holds at most one of the
  two credentials, and in every controller the names of the environment variables are
  distinct and their values are not empty.
\<close>

definition repeatableOverlay :: "Config \<Rightarrow> bool" where
  "repeatableOverlay c2 =
     (list_all (\<lambda>(n, a). Token (Credential a) = None \<or> Client (Credential a) = None)
        (Authorizations c2) \<and>
      list_all (\<lambda>(n, c). distinct (map fst (Env c)) \<and> list_all (\<lambda>(k, v). v \<noteq> '''') (Env c))
        (Controllers c2))"

text \<open>The \<open>find\<close> functions: the first entry of the name, or nil.\<close>

definition findServer :: "NamedServer list \<Rightarrow> string \<Rightarrow> Server option" where
  "findServer l name = map_of l name"

definition findAuthorization :: "NamedAuthorization list \<Rightarrow> string \<Rightarrow> Authorization option" where
  "findAuthorization l name = map_of l name"

definition findCluster :: "NamedCluster list \<Rightarrow> string \<Rightarrow> Cluster option" where
  "findCluster l name = map_of l name"

definition findController :: "NamedController list \<Rightarrow> string \<Rightarrow> Controller option" where
  "findController l name = map_of l name"

definition findContext :: "NamedContext list \<Rightarrow> string \<Rightarrow> Context option" where
  "findContext l name = map_of l name"

section \<open>Errors\<close>

text \<open>
  The errors of the package are \<open>fmt.Errorf\<close> values: one constructor for each
  format string, with the arguments of the format.
  \<^item> \<open>UnknownEnvironment env\<close>: \<open>"unknown environment: %s"\<close> (update.go);
  \<^item> \<open>UnknownEnvironmentRoots env\<close>: \<open>"unknown environment: '%s'"\<close> (defaults);
  \<^item> \<open>UnknownProperty name\<close>: \<open>"unknown config property: %s"\<close>;
  \<^item> \<open>UnknownCluster name\<close>: \<open>"unknown cluster: %s"\<close>;
  \<^item> \<open>UnknownContext name\<close>: \<open>"unknown context: %s"\<close>;
  \<^item> \<open>UnknownReference field value\<close>: \<open>"unknown %s reference: %s"\<close>;
  \<^item> \<open>NoDefaultServer name\<close>:
    \<open>"could not imply default server name for context: %s"\<close>, and likewise
    \<open>NoDefaultAuthorization\<close> and \<open>NoDefaultCluster\<close>;
  \<^item> \<open>NoDefaultController name\<close>:
    \<open>"could not imply default controller name for cluster: %s"\<close>;
  \<^item> \<open>NoDefaultContext\<close>: \<open>"could not imply default current context"\<close>;
  \<^item> \<open>UnknownCredential\<close>: \<open>"unknown credential"\<close>;
  \<^item> \<open>LibraryError msg\<close>: an error returned by a library call (\<open>encoding/json\<close>,
    \<open>net/url\<close>, the discovery package).
\<close>

datatype error =
    UnknownEnvironment string
  | UnknownEnvironmentRoots string
  | UnknownProperty string
  | UnknownCluster string
  | UnknownContext string
  | UnknownReference string string
  | NoDefaultServer string
  | NoDefaultAuthorization string
  | NoDefaultCluster string
  | NoDefaultController string
  | NoDefaultContext
  | UnknownCredential
  | LibraryError string

section \<open>Changes (update.go)\<close>

text \<open>
  The names of the execution environments. The constants \<open>environmentProduction\<close>,
  \<open>environmentStaging\<close> and \<open>environmentDevelopment\<close> are declared outside the
  files at hand; their values are the canonical names \<open>production\<close>, \<open>staging\<close>
  and \<open>development\<close>.
\<close>

definition environmentProduction :: string where
  "environmentProduction = ''production''"

definition environmentStaging :: string where
  "environmentStaging = ''staging''"

definition environmentDevelopment :: string where
  "environmentDevelopment = ''development''"

text \<open>
  \<open>strings.ToLower\<close> of the Go library: a string of ASCII bytes only has its
  letters \<open>A\<close> to \<open>Z\<close> replaced by \<open>a\<close> to \<open>z\<close>; a string with a byte
  of \<open>0x80\<close> or above is mapped rune by rune with \<open>unicode.ToLower\<close>, which is
  the parameter \<open>uni\<close> here.
\<close>

definition isASCII :: "string \<Rightarrow> bool" where
  "isASCII s = list_all (\<lambda>c. (of_char c :: nat) < 128) s"

definition lowerByte :: "char \<Rightarrow> char" where
  "lowerByte c =
     (let n = (of_char c :: nat) in if 65 \<le> n \<and> n \<le> 90 then char_of (n + 32) else c)"

definition ToLower :: "(string \<Rightarrow> string) \<Rightarrow> string \<Rightarrow> string" where
  "ToLower uni s = (if isASCII s then map lowerByte s else uni s)"

text \<open>
  A \<open>Change\<close> is a \<open>func(cfg *Config) error\<close>: it is given the configuration and
  returns the configuration as the call leaves it, with the error (\<open>None\<close> for nil).
\<close>

type_synonym Change = "Config \<Rightarrow> Config \<times> error option"

definition SetExecutionEnvironment :: "(string \<Rightarrow> string) \<Rightarrow> string \<Rightarrow> Change" where
  "SetExecutionEnvironment uni env cfg =
     (let normalized =
        (if env \<noteq> '''' then
           (let l = ToLower uni env in
            if l = ''production'' \<or> l = ''prod'' then Inr environmentProduction
            else if l = ''staging'' \<or> l = ''stage'' then Inr environmentStaging
            else if l = ''development'' \<or> l = ''dev'' then Inr environmentDevelopment
            else Inl (UnknownEnvironment env))
         else Inr env)
      in case normalized of
           Inl e \<Rightarrow> (cfg, Some e)
         | Inr env' \<Rightarrow>
             (let cfg1 = cfg\<lparr>Environment := mergeString (Environment cfg) env'\<rparr>
              in if Environment cfg1 = environmentProduction
                 then (cfg1\<lparr>Environment := ''''\<rparr>, None)
                 else (cfg1, None)))"

text \<open>
  \<open>strings.Split(name, ".")\<close>: the pieces between the separators; never an empty
  list.
\<close>

fun splitOn :: "char \<Rightarrow> string \<Rightarrow> string list" where
  "splitOn c [] = [[]]"
| "splitOn c (x # xs) =
     (if x = c then [] # splitOn c xs
      else (case splitOn c xs of [] \<Rightarrow> [[x]] | w # ws \<Rightarrow> (x # w) # ws))"

text \<open>
  A pointer returned by a \<open>find\<close> function points into the list: an assignment
  through it changes the first entry of the name.
\<close>

fun updateNamed :: "string \<Rightarrow> ('v \<Rightarrow> 'v) \<Rightarrow> (string \<times> 'v) list \<Rightarrow> (string \<times> 'v) list" where
  "updateNamed name f [] = []"
| "updateNamed name f ((n, v) # rest) =
     (if n = name then (n, f v) # rest else (n, v) # updateNamed name f rest)"

definition setClusterProperty :: "Config \<Rightarrow> string \<Rightarrow> string \<Rightarrow> string \<Rightarrow> Config \<times> error option" where
  "setClusterProperty cfg clusterName name value =
     (case findCluster (Clusters cfg) clusterName of
        None \<Rightarrow> (cfg, Some (UnknownCluster clusterName))
      | Some cstr \<Rightarrow>
          if name = ''context'' then
            (cfg\<lparr>Clusters := updateNamed clusterName (\<lambda>c. c\<lparr>clusterContext := value\<rparr>)
               (Clusters cfg)\<rparr>, None)
          else if name = ''bin'' then
            (cfg\<lparr>Clusters := updateNamed clusterName (\<lambda>c. c\<lparr>Bin := value\<rparr>)
               (Clusters cfg)\<rparr>, None)
          else if name = ''controller'' then
            (cfg\<lparr>Clusters := updateNamed clusterName (\<lambda>c. c\<lparr>clusterController := value\<rparr>)
               (Clusters cfg)\<rparr>, None)
          else (cfg, Some (UnknownProperty name)))"

definition setContextProperty :: "Config \<Rightarrow> string \<Rightarrow> string \<Rightarrow> string \<Rightarrow> Config \<times> error option" where
  "setContextProperty cfg contextName name value =
     (case findContext (Contexts cfg) contextName of
        None \<Rightarrow> (cfg, Some (UnknownContext contextName))
      | Some ctx \<Rightarrow>
          if name = ''server'' then
            (if findServer (Servers cfg) value = None
             then (cfg, Some (UnknownReference name value))
             else (cfg\<lparr>Contexts := updateNamed contextName (\<lambda>c. c\<lparr>ctxServer := value\<rparr>)
                     (Contexts cfg)\<rparr>, None))
          else if name = ''authorization'' then
            (if findAuthorization (Authorizations cfg) value = None
             then (cfg, Some (UnknownReference name value))
             else (cfg\<lparr>Contexts :=
                     updateNamed contextName (\<lambda>c. c\<lparr>ctxAuthorization := value\<rparr>)
                       (Contexts cfg)\<rparr>, None))
          else if name = ''cluster'' then
            (if findCluster (Clusters cfg) value = None
             then (cfg, Some (UnknownReference name value))
             else (cfg\<lparr>Contexts := updateNamed contextName (\<lambda>c. c\<lparr>ctxCluster := value\<rparr>)
                     (Contexts cfg)\<rparr>, None))
          else (cfg, Some (UnknownProperty name)))"

text \<open>
  \<open>SetProperty\<close>. The name \<open>env\<close> is handed to \<open>SetExecutionEnvironment\<close>
  before the path is split. A \<open>case\<close> of the \<open>switch\<close> whose length test fails
  falls out of the \<open>switch\<close> to the last \<open>return\<close>. \<open>os\<close> holds the orders
  of the maps of the one \<open>mergeControllers\<close> call.
\<close>

definition SetProperty :: "(string \<Rightarrow> string) \<Rightarrow> orders \<Rightarrow> string \<Rightarrow> string \<Rightarrow> Change" where
  "SetProperty uni os name value cfg =
     (if name = ''env'' then SetExecutionEnvironment uni value cfg
      else
        (let path = splitOn CHR ''.'' name in
         case path of
           [] \<Rightarrow> (cfg, Some (UnknownProperty name))
         | p0 # _ \<Rightarrow>
             if p0 = ''current-context'' then (cfg\<lparr>CurrentContext := value\<rparr>, None)
             else if p0 = ''cluster'' \<and> length path = 3 then
               setClusterProperty cfg (path ! 1) (path ! 2) value
             else if p0 = ''controller'' \<and> length path = 4 \<and> path ! 2 = ''env'' then
               (mergeControllers (controllersOrd os) (envOrd os) cfg
                  [(path ! 1, emptyController\<lparr>Env := [(path ! 3, value)]\<rparr>)], None)
             else if p0 = ''context'' \<and> length path = 3 then
               setContextProperty cfg (path ! 1) (path ! 2) value
             else (cfg, Some (UnknownProperty name))))"

text \<open>
  The grammar of paths as the specification words it: \<open>current-context\<close>,
  \<open>cluster.<name>.<field>\<close> with the field one of \<open>context\<close>, \<open>bin\<close>,
  \<open>controller\<close>; \<open>controller.<name>.env.<varName>\<close>;
  \<open>context.<name>.<field>\<close> with the field one of \<open>server\<close>,
  \<open>authorization\<close>, \<open>cluster\<close>. A name is one segment of the dotted path.
\<close>

definition pathInGrammar :: "string \<Rightarrow> bool" where
  "pathInGrammar name =
     (let path = splitOn CHR ''.'' name in
      path = [''current-context''] \<or>
      (length path = 3 \<and> path ! 0 = ''cluster'' \<and>
         (path ! 2 = ''context'' \<or> path ! 2 = ''bin'' \<or> path ! 2 = ''controller'')) \<or>
      (length path = 4 \<and> path ! 0 = ''controller'' \<and> path ! 2 = ''env'') \<or>
      (length path = 3 \<and> path ! 0 = ''context'' \<and>
         (path ! 2 = ''server'' \<or> path ! 2 = ''authorization'' \<or> path ! 2 = ''cluster'')))"

definition firstSegment :: "string \<Rightarrow> string" where
  "firstSegment name = (case splitOn CHR ''.'' name of [] \<Rightarrow> '''' | p0 # _ \<Rightarrow> p0)"

text \<open>
  The error of a path outside the grammar: a three-segment path under \<open>cluster\<close> or
  \<open>context\<close> is looked up first and fails with the unknown cluster or context when
  there is none of the name, and with the unknown field otherwise; every other path is
  the unknown property.
\<close>

definition unknownPathError :: "Config \<Rightarrow> string \<Rightarrow> error" where
  "unknownPathError cfg name =
     (let path = splitOn CHR ''.'' name in
      if length path = 3 \<and> path ! 0 = ''cluster'' then
        (if findCluster (Clusters cfg) (path ! 1) = None then UnknownCluster (path ! 1)
         else UnknownProperty (path ! 2))
      else if length path = 3 \<and> path ! 0 = ''context'' then
        (if findContext (Contexts cfg) (path ! 1) = None then UnknownContext (path ! 1)
         else UnknownProperty (path ! 2))
      else UnknownProperty name)"

section \<open>Default resolution (the default loader)\<close>

definition defaultString :: "string \<Rightarrow> string \<Rightarrow> string" where
  "defaultString s1 s2 = (if s1 = '''' then s2 else s1)"

definition defaultServerRoots :: "string \<Rightarrow> Server \<Rightarrow> error + Server" where
  "defaultServerRoots env srv =
     (if env = environmentProduction then
        Inr (srv\<lparr>
          Identifier := defaultString (Identifier srv) ''https://api.stormforge.io/'',
          serverAuthorization := (serverAuthorization srv)\<lparr>
            Issuer := defaultString (Issuer (serverAuthorization srv))
              ''https://auth.stormforge.io/''\<rparr>,
          Application := (Application srv)\<lparr>
            BaseURL := defaultString (BaseURL (Application srv))
              ''https://app.stormforge.io/''\<rparr>\<rparr>)
      else if env = environmentStaging then
        Inr (srv\<lparr>
          Identifier := defaultString (Identifier srv) ''https://api.stormforge.dev/'',
          serverAuthorization := (serverAuthorization srv)\<lparr>
            Issuer := defaultString (Issuer (serverAuthorization srv))
              ''https://auth.stormforge.dev/''\<rparr>,
          Application := (Application srv)\<lparr>
            BaseURL := defaultString (BaseURL (Application srv))
              ''https://app.stormforge.dev/''\<rparr>\<rparr>)
      else if env = environmentDevelopment then
        Inr (srv\<lparr>
          Identifier := defaultString (Identifier srv) ''https://api.dev-1.dev.gramlabs.dev/'',
          serverAuthorization := (serverAuthorization srv)\<lparr>
            Issuer := defaultString (Issuer (serverAuthorization srv))
              ''https://auth.dev-1.dev.gramlabs.dev/''\<rparr>,
          Application := (Application srv)\<lparr>
            BaseURL := defaultString (BaseURL (Application srv))
              ''https://app.dev-1.dev.gramlabs.dev/''\<rparr>\<rparr>)
      else Inl (UnknownEnvironmentRoots env))"

text \<open>
  The library functions that \<open>defaultServerEndpoints\<close> calls are parameters:
  \<open>IssuerURL\<close> and \<open>WellKnownURI\<close> of the discovery package; \<open>urlParses raw\<close>
  says that \<open>url.Parse(raw)\<close> returns no error, and \<open>urlJoinPath raw seg\<close> is the
  \<open>String()\<close> of the parsed URL after \<open>path.Join\<close> has added \<open>seg\<close> to its
  path.
\<close>

record library =
  IssuerURL :: "string \<Rightarrow> error + string"
  WellKnownURI :: "string \<Rightarrow> string \<Rightarrow> string"
  urlParses :: "string \<Rightarrow> bool"
  urlJoinPath :: "string \<Rightarrow> string \<Rightarrow> string"

definition defaultServerEndpoints :: "library \<Rightarrow> Server \<Rightarrow> error + Server" where
  "defaultServerEndpoints lib srv =
     (case IssuerURL lib (Identifier srv) of
        Inl e \<Rightarrow> Inl e
      | Inr api \<Rightarrow>
     (case IssuerURL lib (Issuer (serverAuthorization srv)) of
        Inl e \<Rightarrow> Inl e
      | Inr issuer \<Rightarrow>
     (let accounts = defaultString (AccountsEndpoint (API srv)) (api @ ''/v1/accounts/'');
          registration =
            (if \<not> urlParses lib accounts then api @ ''/v1/accounts/clients''
             else urlJoinPath lib accounts ''clients'');
          registry =
            (if \<not> urlParses lib accounts then api @ ''/v1/accounts/robots''
             else urlJoinPath lib accounts ''robots'')
      in Inr (srv\<lparr>
        API := \<lparr>
          ApplicationsEndpoint =
            defaultString (ApplicationsEndpoint (API srv)) (api @ ''/v2/applications/''),
          ExperimentsEndpoint =
            defaultString (ExperimentsEndpoint (API srv)) (api @ ''/v1/experiments/''),
          AccountsEndpoint = accounts,
          PerformanceTokenEndpoint = defaultString (PerformanceTokenEndpoint (API srv))
            ''https://app.stormforger.com/optimize/oauth/tokens'',
          RegistryRegistrationEndpoint =
            defaultString (RegistryRegistrationEndpoint (API srv)) registry\<rparr>,
        serverAuthorization := \<lparr>
          Issuer = Issuer (serverAuthorization srv),
          AuthorizationEndpoint =
            defaultString (AuthorizationEndpoint (serverAuthorization srv))
              (issuer @ ''/authorize''),
          TokenEndpoint =
            defaultString (TokenEndpoint (serverAuthorization srv)) (issuer @ ''/oauth/token''),
          RevocationEndpoint =
            defaultString (RevocationEndpoint (serverAuthorization srv))
              (issuer @ ''/oauth/revoke''),
          RegistrationEndpoint =
            defaultString (RegistrationEndpoint (serverAuthorization srv)) registration,
          DeviceAuthorizationEndpoint =
            defaultString (DeviceAuthorizationEndpoint (serverAuthorization srv))
              (issuer @ ''/oauth/device/code''),
          JSONWebKeySetURI =
            defaultString (JSONWebKeySetURI (serverAuthorization srv))
              (WellKnownURI lib issuer ''jwks.json'')\<rparr>,
        Application := (Application srv)\<lparr>
          AuthSuccessEndpoint := defaultString (AuthSuccessEndpoint (Application srv))
            ''https://docs.stormforge.io/api/auth_success/''\<rparr>\<rparr>))))"

text \<open>
  The methods of \<open>defaults\<close>: the struct's \<open>cfg\<close> is the configuration the
  method is given and returns, its \<open>env\<close> and \<open>clusterName\<close> are arguments.
\<close>

definition addDefaultObjects :: "string \<Rightarrow> Config \<Rightarrow> Config" where
  "addDefaultObjects clusterName cfg = \<lparr>
     Servers = (if length (Servers cfg) = 0 then [(''default'', emptyServer)]
                else Servers cfg),
     Authorizations = (if length (Authorizations cfg) = 0
                       then [(''default'', emptyAuthorization)] else Authorizations cfg),
     Clusters = (if length (Clusters cfg) = 0 then [(clusterName, emptyCluster)]
                 else Clusters cfg),
     Controllers = (if length (Controllers cfg) = 0 then [(clusterName, emptyController)]
                    else Controllers cfg),
     Contexts = (if length (Contexts cfg) = 0 then [(''default'', emptyContext)]
                 else Contexts cfg),
     CurrentContext = CurrentContext cfg,
     Environment = Environment cfg\<rparr>"

text \<open>
  The default name functions. Each is given the list it searches and the current
  value of the string it may assign, and returns the value it leaves there, or the
  error.
\<close>

definition defaultServerName :: "NamedServer list \<Rightarrow> string \<Rightarrow> string \<Rightarrow> error + string" where
  "defaultServerName servers s name =
     (if findServer servers name \<noteq> None then Inr (defaultString s name)
      else if length servers = 1 then Inr (defaultString s (fst (servers ! 0)))
      else if findServer servers ''default'' \<noteq> None then Inr (defaultString s ''default'')
      else if s \<noteq> '''' then Inr s
      else Inl (NoDefaultServer name))"

definition defaultAuthorizationName ::
  "NamedAuthorization list \<Rightarrow> string \<Rightarrow> string \<Rightarrow> string \<Rightarrow> error + string" where
  "defaultAuthorizationName authorizations s name server =
     (if findAuthorization authorizations name \<noteq> None then Inr (defaultString s name)
      else if findAuthorization authorizations server \<noteq> None
        then Inr (defaultString s server)
      else if length authorizations = 1
        then Inr (defaultString s (fst (authorizations ! 0)))
      else if findAuthorization authorizations ''default'' \<noteq> None
        then Inr (defaultString s ''default'')
      else if s \<noteq> '''' then Inr s
      else Inl (NoDefaultAuthorization name))"

definition defaultClusterName ::
  "NamedCluster list \<Rightarrow> string \<Rightarrow> string \<Rightarrow> string \<Rightarrow> error + string" where
  "defaultClusterName clusters clusterName s name =
     (if findCluster clusters name \<noteq> None then Inr (defaultString s name)
      else if length clusters = 1 then Inr (defaultString s (fst (clusters ! 0)))
      else if findCluster clusters clusterName \<noteq> None
        then Inr (defaultString s clusterName)
      else if s \<noteq> '''' then Inr s
      else Inl (NoDefaultCluster name))"

definition defaultControllerName ::
  "NamedController list \<Rightarrow> string \<Rightarrow> string \<Rightarrow> string \<Rightarrow> error + string" where
  "defaultControllerName controllers clusterName s name =
     (if findController controllers name \<noteq> None then Inr (defaultString s name)
      else if length controllers = 1 then Inr (defaultString s (fst (controllers ! 0)))
      else if findController controllers clusterName \<noteq> None
        then Inr (defaultString s clusterName)
      else if s \<noteq> '''' then Inr s
      else Inl (NoDefaultController name))"

definition defaultContextName :: "NamedContext list \<Rightarrow> string \<Rightarrow> error + string" where
  "defaultContextName contexts s =
     (if length contexts = 1 then Inr (defaultString s (fst (contexts ! 0)))
      else if findContext contexts ''default'' \<noteq> None then Inr (defaultString s ''default'')
      else if s \<noteq> '''' then Inr s
      else Inl NoDefaultContext)"

text \<open>
  A loop \<open>for i := range list\<close> whose body changes the entry \<open>i\<close> and returns at
  the first error: \<open>forEachNamed body list\<close>, the body given the entry's name and
  value.
\<close>

fun forEachNamed ::
  "(string \<Rightarrow> 'v \<Rightarrow> error + 'v) \<Rightarrow> (string \<times> 'v) list \<Rightarrow> error + (string \<times> 'v) list" where
  "forEachNamed body [] = Inr []"
| "forEachNamed body ((n, v) # rest) =
     (case body n v of
        Inl e \<Rightarrow> Inl e
      | Inr v' \<Rightarrow>
          (case forEachNamed body rest of
             Inl e \<Rightarrow> Inl e
           | Inr rest' \<Rightarrow> Inr ((n, v') # rest')))"

definition serverDefaults :: "library \<Rightarrow> string \<Rightarrow> string \<Rightarrow> Server \<Rightarrow> error + Server" where
  "serverDefaults lib env name srv =
     (case defaultServerRoots env srv of
        Inl e \<Rightarrow> Inl e
      | Inr srv1 \<Rightarrow> defaultServerEndpoints lib srv1)"

definition applyServerDefaults :: "library \<Rightarrow> string \<Rightarrow> Config \<Rightarrow> error + Config" where
  "applyServerDefaults lib env cfg =
     (case forEachNamed (serverDefaults lib env) (Servers cfg) of
        Inl e \<Rightarrow> Inl e
      | Inr servers \<Rightarrow> Inr (cfg\<lparr>Servers := servers\<rparr>))"

definition clusterDefaults ::
  "NamedController list \<Rightarrow> string \<Rightarrow> string \<Rightarrow> Cluster \<Rightarrow> error + Cluster" where
  "clusterDefaults controllers clusterName name cstr =
     (let cstr1 = cstr\<lparr>Bin := defaultString (Bin cstr) ''kubectl''\<rparr> in
      case defaultControllerName controllers clusterName (clusterController cstr1) name of
        Inl e \<Rightarrow> Inl e
      | Inr c \<Rightarrow> Inr (cstr1\<lparr>clusterController := c\<rparr>))"

definition applyClusterDefaults :: "string \<Rightarrow> Config \<Rightarrow> error + Config" where
  "applyClusterDefaults clusterName cfg =
     (case forEachNamed (clusterDefaults (Controllers cfg) clusterName) (Clusters cfg) of
        Inl e \<Rightarrow> Inl e
      | Inr clusters \<Rightarrow> Inr (cfg\<lparr>Clusters := clusters\<rparr>))"

definition controllerDefaults :: "string \<Rightarrow> Controller \<Rightarrow> error + Controller" where
  "controllerDefaults name ctrl =
     Inr (ctrl\<lparr>
       DeploymentName := defaultString (DeploymentName ctrl) ''optimize-controller-manager'',
       controllerNamespace :=
         defaultString (controllerNamespace ctrl) ''stormforge-system''\<rparr>)"

definition applyControllerDefaults :: "Config \<Rightarrow> error + Config" where
  "applyControllerDefaults cfg =
     (case forEachNamed controllerDefaults (Controllers cfg) of
        Inl e \<Rightarrow> Inl e
      | Inr controllers \<Rightarrow> Inr (cfg\<lparr>Controllers := controllers\<rparr>))"

definition contextDefaults ::
  "Config \<Rightarrow> string \<Rightarrow> string \<Rightarrow> Context \<Rightarrow> error + Context" where
  "contextDefaults cfg clusterName name ctx =
     (case defaultServerName (Servers cfg) (ctxServer ctx) name of
        Inl e \<Rightarrow> Inl e
      | Inr server \<Rightarrow>
     (case defaultAuthorizationName (Authorizations cfg) (ctxAuthorization ctx) name server of
        Inl e \<Rightarrow> Inl e
      | Inr authorization \<Rightarrow>
     (case defaultClusterName (Clusters cfg) clusterName (ctxCluster ctx) name of
        Inl e \<Rightarrow> Inl e
      | Inr cluster \<Rightarrow>
          Inr \<lparr>ctxServer = server, ctxAuthorization = authorization, ctxCluster = cluster\<rparr>)))"

definition applyContextDefaults :: "string \<Rightarrow> Config \<Rightarrow> error + Config" where
  "applyContextDefaults clusterName cfg =
     (case forEachNamed (contextDefaults cfg clusterName) (Contexts cfg) of
        Inl e \<Rightarrow> Inl e
      | Inr contexts \<Rightarrow>
          (case defaultContextName contexts (CurrentContext cfg) of
             Inl e \<Rightarrow> Inl e
           | Inr current \<Rightarrow> Inr (cfg\<lparr>Contexts := contexts, CurrentContext := current\<rparr>)))"

text \<open>
  \<open>defaultLoader\<close>, on the configuration data: \<open>env\<close> is the value of
  \<open>cfg.Environment()\<close> and \<open>clusterName\<close> the value of
  \<open>bootstrapClusterName()\<close> (the name of the cluster that \<open>kubectl\<close> reports, or
  \<open>default\<close>).
\<close>

definition defaultLoader :: "library \<Rightarrow> string \<Rightarrow> string \<Rightarrow> Config \<Rightarrow> error + Config" where
  "defaultLoader lib env clusterName cfg =
     (case applyServerDefaults lib env (addDefaultObjects clusterName cfg) of
        Inl e \<Rightarrow> Inl e
      | Inr c1 \<Rightarrow>
     (case applyClusterDefaults clusterName c1 of
        Inl e \<Rightarrow> Inl e
      | Inr c2 \<Rightarrow>
     (case applyControllerDefaults c2 of
        Inl e \<Rightarrow> Inl e
      | Inr c3 \<Rightarrow> applyContextDefaults clusterName c3)))"

text \<open>
  The Implied Name algorithm as the specification words it, for an empty field: the
  names of the target collection, the name of the enclosing entity, the auxiliary key
  (for an authorization) and the name of the last fallback. The specification's last
  fallback is the literal \<open>default\<close> (\<open>impliedNameSpec\<close>).
\<close>

definition impliedName ::
  "string list \<Rightarrow> string \<Rightarrow> string option \<Rightarrow> string \<Rightarrow> string option" where
  "impliedName names entity aux fallback =
     (if entity \<in> set names then Some entity
      else if (case aux of None \<Rightarrow> False | Some k \<Rightarrow> k \<in> set names) then aux
      else if length names = 1 then Some (names ! 0)
      else if fallback \<in> set names then Some fallback
      else None)"

definition impliedNameSpec :: "string list \<Rightarrow> string \<Rightarrow> string option \<Rightarrow> string option" where
  "impliedNameSpec names entity aux = impliedName names entity aux ''default''"

definition resolved :: "error \<Rightarrow> string option \<Rightarrow> error + string" where
  "resolved e r = (case r of None \<Rightarrow> Inl e | Some n \<Rightarrow> Inr n)"

text \<open>
  What a step of the default resolution keeps: a string that is not empty keeps its
  value; a list that is not empty keeps its length, its names and their order, and the
  fields of its entries.
\<close>

definition keepsString :: "string \<Rightarrow> string \<Rightarrow> bool" where
  "keepsString old new = (old = '''' \<or> new = old)"

definition keepsServer :: "Server \<Rightarrow> Server \<Rightarrow> bool" where
  "keepsServer old new =
     (keepsString (Identifier old) (Identifier new) \<and>
      keepsString (ApplicationsEndpoint (API old)) (ApplicationsEndpoint (API new)) \<and>
      keepsString (ExperimentsEndpoint (API old)) (ExperimentsEndpoint (API new)) \<and>
      keepsString (AccountsEndpoint (API old)) (AccountsEndpoint (API new)) \<and>
      keepsString (PerformanceTokenEndpoint (API old)) (PerformanceTokenEndpoint (API new)) \<and>
      keepsString (RegistryRegistrationEndpoint (API old))
        (RegistryRegistrationEndpoint (API new)) \<and>
      keepsString (Issuer (serverAuthorization old)) (Issuer (serverAuthorization new)) \<and>
      keepsString (AuthorizationEndpoint (serverAuthorization old))
        (AuthorizationEndpoint (serverAuthorization new)) \<and>
      keepsString (TokenEndpoint (serverAuthorization old))
        (TokenEndpoint (serverAuthorization new)) \<and>
      keepsString (RevocationEndpoint (serverAuthorization old))
        (RevocationEndpoint (serverAuthorization new)) \<and>
      keepsString (RegistrationEndpoint (serverAuthorization old))
        (RegistrationEndpoint (serverAuthorization new)) \<and>
      keepsString (DeviceAuthorizationEndpoint (serverAuthorization old))
        (DeviceAuthorizationEndpoint (serverAuthorization new)) \<and>
      keepsString (JSONWebKeySetURI (serverAuthorization old))
        (JSONWebKeySetURI (serverAuthorization new)) \<and>
      keepsString (BaseURL (Application old)) (BaseURL (Application new)) \<and>
      keepsString (AuthSuccessEndpoint (Application old))
        (AuthSuccessEndpoint (Application new)))"

definition keepsCluster :: "Cluster \<Rightarrow> Cluster \<Rightarrow> bool" where
  "keepsCluster old new =
     (keepsString (KubeConfig old) (KubeConfig new) \<and>
      keepsString (clusterContext old) (clusterContext new) \<and>
      keepsString (clusterNamespace old) (clusterNamespace new) \<and>
      keepsString (Bin old) (Bin new) \<and>
      keepsString (clusterController old) (clusterController new))"

definition keepsController :: "Controller \<Rightarrow> Controller \<Rightarrow> bool" where
  "keepsController old new =
     (keepsString (DeploymentName old) (DeploymentName new) \<and>
      keepsString (controllerNamespace old) (controllerNamespace new) \<and>
      keepsString (RegistrationClientURI old) (RegistrationClientURI new) \<and>
      keepsString (RegistrationAccessToken old) (RegistrationAccessToken new) \<and>
      Env new = Env old)"

definition keepsContext :: "Context \<Rightarrow> Context \<Rightarrow> bool" where
  "keepsContext old new =
     (keepsString (ctxServer old) (ctxServer new) \<and>
      keepsString (ctxAuthorization old) (ctxAuthorization new) \<and>
      keepsString (ctxCluster old) (ctxCluster new))"

definition keepsNamed ::
  "('v \<Rightarrow> 'v \<Rightarrow> bool) \<Rightarrow> (string \<times> 'v) list \<Rightarrow> (string \<times> 'v) list \<Rightarrow> bool" where
  "keepsNamed keeps old new =
     (old = [] \<or> list_all2 (\<lambda>a b. fst b = fst a \<and> keeps (snd a) (snd b)) old new)"

definition keepsConfig :: "Config \<Rightarrow> Config \<Rightarrow> bool" where
  "keepsConfig old new =
     (keepsNamed keepsServer (Servers old) (Servers new) \<and>
      keepsNamed (=) (Authorizations old) (Authorizations new) \<and>
      keepsNamed keepsCluster (Clusters old) (Clusters new) \<and>
      keepsNamed keepsController (Controllers old) (Controllers new) \<and>
      keepsNamed keepsContext (Contexts old) (Contexts new) \<and>
      keepsString (CurrentContext old) (CurrentContext new) \<and>
      Environment new = Environment old)"

section \<open>Credentials as JSON (Credential.MarshalJSON, Credential.UnmarshalJSON)\<close>

text \<open>
  The two methods work on JSON text through \<open>encoding/json\<close>. The model is at the
  level of JSON values: a document is the value that the text denotes, an object is the
  list of its members in the order of the text, and a Go string is written as the JSON
  string of the same bytes and read back as such (as the library does for valid
  UTF-8). \<open>JOther\<close> is a number, a boolean or an array.
\<close>

datatype json =
    JNull
  | JString string
  | JObject "(string \<times> json) list"
  | JOther

text \<open>
  What the library does and the package does not define is a parameter:
  \<open>formatTime\<close> is \<open>Time.Format(time.RFC3339)\<close>, \<open>parseTime\<close> is the parsing
  of \<open>Time.UnmarshalJSON\<close> (\<open>None\<close> for an error), \<open>foldName\<close> is the case
  folding by which the decoder matches a key that is no field's exact name, and
  \<open>jwtParse\<close> is \<open>jwt.ParseString\<close> followed by the encoding of the token
  (\<open>None\<close> for an error).
\<close>

record jsonlib =
  formatTime :: "Time \<Rightarrow> string"
  parseTime :: "string \<Rightarrow> Time option"
  foldName :: "string \<Rightarrow> string"
  jwtParse :: "string \<Rightarrow> json option"



text \<open>
  \<open>json.Unmarshal(data, &m)\<close> for a nil \<open>map[string]string\<close>: \<open>null\<close> leaves
  the map nil; an object stores every member, a string by its value and \<open>null\<close> as
  the empty string, a later member replacing an earlier one of the same key; a member
  of another kind, or a document that is no object, is an error.
\<close>

definition stringOf :: "json \<Rightarrow> string" where
  "stringOf v = (case v of JString s \<Rightarrow> s | _ \<Rightarrow> '''')"

definition isStringOrNull :: "json \<Rightarrow> bool" where
  "isStringOrNull v = (case v of JString s \<Rightarrow> True | JNull \<Rightarrow> True | _ \<Rightarrow> False)"

definition unmarshalStringMap :: "json \<Rightarrow> error + string gomap" where
  "unmarshalStringMap data =
     (case data of
        JNull \<Rightarrow> Inr []
      | JObject ms \<Rightarrow>
          if list_all (\<lambda>(k, v). isStringOrNull v) ms
          then Inr (buildIndex (map (\<lambda>(k, v). (k, stringOf v)) ms))
          else Inl (LibraryError ''json: cannot unmarshal into Go value of type string'')
      | _ \<Rightarrow>
          Inl (LibraryError ''json: cannot unmarshal into Go value of type map[string]string''))"

text \<open>
  \<open>json.Unmarshal\<close> into a struct: the members are read in the order of the text. A
  key is matched to the field of that exact name, or else to the first field whose
  folded name is the folded key; a key that matches no field is skipped. For a string
  field, a string is stored, \<open>null\<close> changes nothing, and a value of another kind is
  recorded as the error to return in the end while the decoding goes on. The expiry is a
  \<open>time.Time\<close>, decoded by its own \<open>UnmarshalJSON\<close>: \<open>null\<close> changes nothing,
  and a string that does not parse (or a value that is no string) ends the decoding at
  once with an error, the fields stored so far staying as they are. The result is the
  struct as the call leaves it, and the error.
\<close>

definition matchField :: "jsonlib \<Rightarrow> string list \<Rightarrow> string \<Rightarrow> string option" where
  "matchField lib names key =
     (if key \<in> set names then Some key
      else find (\<lambda>n. foldName lib n = foldName lib key) names)"

definition typeError :: "error option \<Rightarrow> error option" where
  "typeError saved =
     (case saved of
        None \<Rightarrow> Some (LibraryError ''json: cannot unmarshal into Go struct field of type string'')
      | Some e \<Rightarrow> Some e)"

definition setTokenField :: "string \<Rightarrow> string \<Rightarrow> TokenCredential \<Rightarrow> TokenCredential" where
  "setTokenField f s tc =
     (if f = ''access_token'' then tc\<lparr>AccessToken := s\<rparr>
      else if f = ''token_type'' then tc\<lparr>TokenType := s\<rparr>
      else if f = ''refresh_token'' then tc\<lparr>RefreshToken := s\<rparr>
      else tc)"

fun decodeToken ::
  "jsonlib \<Rightarrow> (string \<times> json) list \<Rightarrow> TokenCredential \<Rightarrow> error option \<Rightarrow>
     TokenCredential \<times> error option" where
  "decodeToken lib [] tc saved = (tc, saved)"
| "decodeToken lib ((k, v) # rest) tc saved =
     (case matchField lib [''access_token'', ''token_type'', ''refresh_token'', ''expiry''] k of
        None \<Rightarrow> decodeToken lib rest tc saved
      | Some f \<Rightarrow>
          if f = ''expiry'' then
            (case v of
               JNull \<Rightarrow> decodeToken lib rest tc saved
             | JString s \<Rightarrow>
                 (case parseTime lib s of
                    Some t \<Rightarrow> decodeToken lib rest (tc\<lparr>Expiry := t\<rparr>) saved
                  | None \<Rightarrow> (tc, Some (LibraryError ''parsing time'')))
             | _ \<Rightarrow>
                 (tc, Some (LibraryError ''Time.UnmarshalJSON: input is not a JSON string'')))
          else
            (case v of
               JNull \<Rightarrow> decodeToken lib rest tc saved
             | JString s \<Rightarrow> decodeToken lib rest (setTokenField f s tc) saved
             | _ \<Rightarrow> decodeToken lib rest tc (typeError saved)))"

definition unmarshalToken ::
  "jsonlib \<Rightarrow> json \<Rightarrow> TokenCredential \<Rightarrow> TokenCredential \<times> error option" where
  "unmarshalToken lib data tc =
     (case data of
        JNull \<Rightarrow> (tc, None)
      | JObject ms \<Rightarrow> decodeToken lib ms tc None
      | _ \<Rightarrow> (tc, Some (LibraryError ''json: cannot unmarshal into Go value of type struct'')))"

definition setClientField :: "string \<Rightarrow> string \<Rightarrow> ClientCredential \<Rightarrow> ClientCredential" where
  "setClientField f s cc =
     (if f = ''client_id'' then cc\<lparr>ClientID := s\<rparr>
      else if f = ''client_secret'' then cc\<lparr>ClientSecret := s\<rparr>
      else if f = ''scope'' then cc\<lparr>Scope := s\<rparr>
      else cc)"

fun decodeClient ::
  "jsonlib \<Rightarrow> (string \<times> json) list \<Rightarrow> ClientCredential \<Rightarrow> error option \<Rightarrow>
     ClientCredential \<times> error option" where
  "decodeClient lib [] cc saved = (cc, saved)"
| "decodeClient lib ((k, v) # rest) cc saved =
     (case matchField lib [''client_id'', ''client_secret'', ''scope''] k of
        None \<Rightarrow> decodeClient lib rest cc saved
      | Some f \<Rightarrow>
          (case v of
             JNull \<Rightarrow> decodeClient lib rest cc saved
           | JString s \<Rightarrow> decodeClient lib rest (setClientField f s cc) saved
           | _ \<Rightarrow> decodeClient lib rest cc (typeError saved)))"

definition unmarshalClient ::
  "jsonlib \<Rightarrow> json \<Rightarrow> ClientCredential \<Rightarrow> ClientCredential \<times> error option" where
  "unmarshalClient lib data cc =
     (case data of
        JNull \<Rightarrow> (cc, None)
      | JObject ms \<Rightarrow> decodeClient lib ms cc None
      | _ \<Rightarrow> (cc, Some (LibraryError ''json: cannot unmarshal into Go value of type struct'')))"

text \<open>
  \<open>UnmarshalJSON\<close>: the receiver \<open>c\<close> is the credential the method is called on;
  the result is the credential as the call leaves it, or the error. Both the branch
  \<open>err != nil\<close> of the inner \<open>json.Unmarshal\<close> and the end of the method return
  nil.
\<close>

definition CredentialUnmarshalJSON :: "jsonlib \<Rightarrow> json \<Rightarrow> Credential \<Rightarrow> error + Credential" where
  "CredentialUnmarshalJSON lib data c =
     (case unmarshalStringMap data of
        Inl e \<Rightarrow> Inl e
      | Inr m \<Rightarrow>
          if length m = 0 then Inr c
          else if lookupString m ''access_token'' \<noteq> '''' then
            (case unmarshalToken lib data emptyTokenCredential of
               (tc, Some err) \<Rightarrow> Inr (c\<lparr>Token := Some tc\<rparr>)
             | (tc, None) \<Rightarrow> Inr (c\<lparr>Token := Some tc\<rparr>))
          else if lookupString m ''client_id'' \<noteq> '''' then
            (case unmarshalClient lib data emptyClientCredential of
               (cc, Some err) \<Rightarrow> Inr (c\<lparr>Client := Some cc\<rparr>)
             | (cc, None) \<Rightarrow> Inr (c\<lparr>Client := Some cc\<rparr>))
          else Inl UnknownCredential)"



section \<open>Concrete inputs\<close>

text \<open>Two orders of iteration: the keys as stored, and the keys reversed.\<close>

definition storedOrders :: orders where
  "storedOrders = \<lparr>serversOrd = (\<lambda>ks. ks), authorizationsOrd = (\<lambda>ks. ks),
     clustersOrd = (\<lambda>ks. ks), controllersOrd = (\<lambda>ks. ks), contextsOrd = (\<lambda>ks. ks),
     envOrd = (\<lambda>n ks. ks)\<rparr>"

definition reversedOrders :: orders where
  "reversedOrders = \<lparr>serversOrd = rev, authorizationsOrd = rev, clustersOrd = rev,
     controllersOrd = rev, contextsOrd = rev, envOrd = (\<lambda>n. rev)\<rparr>"

definition serverX :: Server where
  "serverX = emptyServer\<lparr>Identifier := ''x''\<rparr>"

definition serverY :: Server where
  "serverY = emptyServer\<lparr>Identifier := ''y''\<rparr>"

definition cfgServersAB :: Config where
  "cfgServersAB = emptyConfig\<lparr>Servers := [(''a'', serverX), (''b'', serverY)]\<rparr>"

definition cfgServersAA :: Config where
  "cfgServersAA = emptyConfig\<lparr>Servers := [(''a'', serverX), (''a'', serverY)]\<rparr>"

definition cfgServersCA :: Config where
  "cfgServersCA = emptyConfig\<lparr>Servers := [(''c'', serverY), (''a'', emptyServer)]\<rparr>"

definition cfgEnvBase :: Config where
  "cfgEnvBase = emptyConfig\<lparr>Controllers :=
     [(''c'', emptyController\<lparr>Env := [(''A'', ''1'')]\<rparr>)]\<rparr>"

definition cfgEnvOverlay :: Config where
  "cfgEnvOverlay = emptyConfig\<lparr>Controllers :=
     [(''c'', emptyController\<lparr>Env := [(''A'', '''')]\<rparr>)]\<rparr>"

definition tokenT :: TokenCredential where
  "tokenT = emptyTokenCredential\<lparr>AccessToken := ''t''\<rparr>"

definition clientC :: ClientCredential where
  "clientC = emptyClientCredential\<lparr>ClientID := ''id''\<rparr>"

definition authToken :: Authorization where
  "authToken = \<lparr>Credential = \<lparr>Token = Some tokenT, Client = None\<rparr>\<rparr>"

definition authClient :: Authorization where
  "authClient = \<lparr>Credential = \<lparr>Token = None, Client = Some clientC\<rparr>\<rparr>"

definition noUnicode :: "string \<Rightarrow> string" where
  "noUnicode s = s"

definition cfgStaging :: Config where
  "cfgStaging = emptyConfig\<lparr>Environment := ''staging''\<rparr>"

definition cfgContextFoo :: Config where
  "cfgContextFoo = emptyConfig\<lparr>Contexts := [(''foo'', emptyContext)]\<rparr>"

definition clustersDefaultOther :: "NamedCluster list" where
  "clustersDefaultOther = [(''default'', emptyCluster), (''other'', emptyCluster)]"

definition clustersProdOther :: "NamedCluster list" where
  "clustersProdOther = [(''prod'', emptyCluster), (''other'', emptyCluster)]"

definition authorizationsTwo :: "NamedAuthorization list" where
  "authorizationsTwo = [(''srv'', emptyAuthorization), (''other'', emptyAuthorization)]"

text \<open>
  A stand-in for the library of the default resolution: the issuer URL is the
  identifier without a trailing slash, every URL parses, and a path segment is added
  after a slash.
\<close>

definition testLibrary :: library where
  "testLibrary = \<lparr>
     IssuerURL = (\<lambda>s. Inr (if s \<noteq> [] \<and> last s = CHR ''/'' then butlast s else s)),
     WellKnownURI = (\<lambda>issuer name. issuer @ ''/.well-known/'' @ name),
     urlParses = (\<lambda>raw. True),
     urlJoinPath = (\<lambda>raw seg.
       (if raw \<noteq> [] \<and> last raw = CHR ''/'' then butlast raw else raw) @ ''/'' @ seg)\<rparr>"

definition cfgServerX :: Config where
  "cfgServerX = emptyConfig\<lparr>Servers := [(''a'', serverX)]\<rparr>"

definition resolvedServerX :: Config where
  "resolvedServerX = \<lparr>
     Servers =
       [(''a'',
         \<lparr>Identifier = ''x'',
          API = \<lparr>
            ApplicationsEndpoint = ''x/v2/applications/'',
            ExperimentsEndpoint = ''x/v1/experiments/'',
            AccountsEndpoint = ''x/v1/accounts/'',
            PerformanceTokenEndpoint = ''https://app.stormforger.com/optimize/oauth/tokens'',
            RegistryRegistrationEndpoint = ''x/v1/accounts/robots''\<rparr>,
          serverAuthorization = \<lparr>
            Issuer = ''https://auth.stormforge.dev/'',
            AuthorizationEndpoint = ''https://auth.stormforge.dev/authorize'',
            TokenEndpoint = ''https://auth.stormforge.dev/oauth/token'',
            RevocationEndpoint = ''https://auth.stormforge.dev/oauth/revoke'',
            RegistrationEndpoint = ''x/v1/accounts/clients'',
            DeviceAuthorizationEndpoint = ''https://auth.stormforge.dev/oauth/device/code'',
            JSONWebKeySetURI = ''https://auth.stormforge.dev/.well-known/jwks.json''\<rparr>,
          Application = \<lparr>
            BaseURL = ''https://app.stormforge.dev/'',
            AuthSuccessEndpoint = ''https://docs.stormforge.io/api/auth_success/''\<rparr>\<rparr>)],
     Authorizations = [(''default'', emptyAuthorization)],
     Clusters =
       [(''default'', emptyCluster\<lparr>Bin := ''kubectl'', clusterController := ''default''\<rparr>)],
     Controllers =
       [(''default'', emptyController\<lparr>
          DeploymentName := ''optimize-controller-manager'',
          controllerNamespace := ''stormforge-system''\<rparr>)],
     Contexts =
       [(''default'',
         \<lparr>ctxServer = ''a'', ctxAuthorization = ''default'', ctxCluster = ''default''\<rparr>)],
     CurrentContext = ''default'',
     Environment = ''''\<rparr>"

text \<open>
  A stand-in for the library of the credential methods: one instant that is rendered
  and parsed back, no other string parses, keys are folded by \<open>lowerByte\<close>, and no
  token parses as a JWT.
\<close>

definition newYear :: Time where
  "newYear = \<lparr>instant = 63745056000000000000, location = ''''\<rparr>"

definition testJSON :: jsonlib where
  "testJSON = \<lparr>
     formatTime = (\<lambda>t. if t = newYear then ''2021-01-01T00:00:00Z'' else ''other''),
     parseTime = (\<lambda>s. if s = ''2021-01-01T00:00:00Z'' then Some newYear else None),
     foldName = map lowerByte,
     jwtParse = (\<lambda>s. None)\<rparr>"





definition jsonBadExpiry :: json where
  "jsonBadExpiry = JObject [(''access_token'', JString ''tok''),
     (''expiry'', JString ''garbage''), (''token_type'', JString ''bearer'')]"

definition jsonBadExpiryFirst :: json where
  "jsonBadExpiryFirst = JObject [(''expiry'', JString ''garbage''),
     (''access_token'', JString ''tok'')]"

section \<open>Properties of the merge\<close>

lemma map_of_foldl_update:
  "map_of (foldl (\<lambda>m (k, v). AList.update k v m) acc xs) k =
     (case map_of (rev xs) k of Some v \<Rightarrow> Some v | None \<Rightarrow> map_of acc k)"
proof (induction xs arbitrary: acc)
  case Nil
  then show ?case by simp
next
  case (Cons x xs)
  obtain a b where x: "x = (a, b)" by (cases x)
  show ?case
    by (simp add: Cons.IH x update_conv' map_add_def split: option.splits)
qed

lemma map_of_buildIndex: "map_of (buildIndex xs) = map_of (rev xs)"
  by (rule ext) (simp add: buildIndex_def map_of_foldl_update split: option.splits)

lemma distinct_foldl_update:
  "distinct (map fst acc) \<Longrightarrow>
     distinct (map fst (foldl (\<lambda>m (k, v). AList.update k v m) acc xs))"
  by (induction xs arbitrary: acc) (auto simp: distinct_update split: prod.splits)

lemma distinct_buildIndex: "distinct (map fst (buildIndex xs))"
  by (simp add: buildIndex_def distinct_foldl_update)

lemma set_buildIndex:
  "set (buildIndex xs) = {(k, v). map_of (rev xs) k = Some v}"
proof -
  have "set (buildIndex xs) = {(k, v). map_of (buildIndex xs) k = Some v}"
    using distinct_buildIndex [of xs] by auto
  then show ?thesis by (simp only: map_of_buildIndex)
qed

lemma mergeLoop_names: "map fst (fst (mergeLoop f base idx)) = map fst base"
  by (induction f base idx rule: mergeLoop.induct) (auto split: option.splits prod.splits)

lemma mergeLoop_length: "length (fst (mergeLoop f base idx)) = length base"
  using mergeLoop_names [of f base idx] by (metis length_map)

lemma mergeLoop_index:
  "snd (mergeLoop f base idx) = filter (\<lambda>p. fst p \<notin> fst ` set base) idx"
proof (induction f base idx rule: mergeLoop.induct)
  case (1 f idx)
  then show ?case by simp
next
  case (2 f n b rest idx)
  show ?case
  proof (cases "map_of idx n")
    case None
    then have "n \<notin> fst ` set idx" by (simp add: map_of_eq_None_iff)
    then have "filter (\<lambda>p. fst p \<notin> fst ` set ((n, b) # rest)) idx
               = filter (\<lambda>p. fst p \<notin> fst ` set rest) idx"
      by (intro filter_cong) auto
    with None 2(1) show ?thesis by (simp add: split_beta)
  next
    case (Some v)
    have "filter (\<lambda>p. fst p \<notin> fst ` set rest) (AList.delete n idx)
          = filter (\<lambda>p. fst p \<notin> fst ` set ((n, b) # rest)) idx"
      by (induction idx) (auto simp: )
    with Some 2(2) show ?thesis by (simp add: split_beta)
  qed
qed

lemma mergeLoop_untouched:
  "i < length base \<Longrightarrow> map_of idx (fst (base ! i)) = None \<Longrightarrow>
     fst (mergeLoop f base idx) ! i = base ! i"
proof (induction f base idx arbitrary: i rule: mergeLoop.induct)
  case (1 f idx)
  then show ?case by simp
next
  case (2 f n b rest idx)
  show ?case
  proof (cases i)
    case 0
    with 2(4) show ?thesis by (simp add: split_beta)
  next
    case (Suc j)
    with 2(3,4) have j: "j < length rest" "map_of idx (fst (rest ! j)) = None" by simp_all
    show ?thesis
    proof (cases "map_of idx n")
      case None
      with 2(1) [OF None j] Suc show ?thesis by (simp add: split_beta)
    next
      case (Some v)
      from j(2) have "map_of (AList.delete n idx) (fst (rest ! j)) = None"
        by (simp add: delete_conv')
      with 2(2) [OF Some j(1)] Some Suc show ?thesis by (simp add: split_beta)
    qed
  qed
qed

lemma concat_lookup_total:
  "(\<And>k. k \<in> set ks \<Longrightarrow> map_of m k \<noteq> None) \<Longrightarrow>
     concat (map (\<lambda>k. case map_of m k of Some v \<Rightarrow> [(k, v)] | None \<Rightarrow> []) ks) =
     map (\<lambda>k. (k, the (map_of m k))) ks"
proof (induction ks)
  case Nil
  then show ?case by simp
next
  case (Cons a ks)
  from Cons.prems [of a] obtain v where "map_of m a = Some v" by auto
  with Cons show ?case by simp
qed

lemma rangeMap_mset:
  assumes "map_iteration ord" "distinct (map fst m)"
  shows "mset (rangeMap ord m) = mset m"
proof -
  let ?g = "\<lambda>k. (k, the (map_of m k))"
  have in_dom: "\<And>k. k \<in> set (ord (map fst m)) \<Longrightarrow> map_of m k \<noteq> None"
  proof -
    fix k assume "k \<in> set (ord (map fst m))"
    moreover have "set (ord (map fst m)) = set (map fst m)"
      using assms(1) by (metis map_iteration_def mset_eq_setD)
    ultimately show "map_of m k \<noteq> None" by (simp add: map_of_eq_None_iff)
  qed
  have "rangeMap ord m = map ?g (ord (map fst m))"
    unfolding rangeMap_def using in_dom by (rule concat_lookup_total)
  then have "mset (rangeMap ord m) = image_mset ?g (mset (ord (map fst m)))" by simp
  also have "\<dots> = image_mset ?g (mset (map fst m))"
    using assms(1) by (simp add: map_iteration_def)
  also have "\<dots> = mset (map ?g (map fst m))" by (simp only: mset_map)
  also have "map ?g (map fst m) = m"
  proof -
    have "map (?g \<circ> fst) m = m"
    proof (rule map_idI)
      fix p assume "p \<in> set m"
      then have "map_of m (fst p) = Some (snd p)" using assms(2) by simp
      then show "(?g \<circ> fst) p = p" by simp
    qed
    then show ?thesis by simp
  qed
  finally show ?thesis .
qed


lemma mergeNamed_split:
  "mergeNamed ord f base overlay =
     fst (mergeLoop f base (buildIndex overlay)) @
     rangeMap ord (filter (\<lambda>p. fst p \<notin> fst ` set base) (buildIndex overlay))"
  by (simp add: mergeNamed_def split_beta mergeLoop_index)

lemma mergeNamed_keepsBaseOnly: "keepsBaseOnly base overlay (mergeNamed ord f base overlay)"
proof -
  let ?b = "fst (mergeLoop f base (buildIndex overlay))"
  have len: "length ?b = length base" by (rule mergeLoop_length)
  have "\<And>i. i < length base \<Longrightarrow> fst (base ! i) \<notin> fst ` set overlay \<Longrightarrow>
          mergeNamed ord f base overlay ! i = base ! i"
  proof -
    fix i assume i: "i < length base" and "fst (base ! i) \<notin> fst ` set overlay"
    then have "map_of (buildIndex overlay) (fst (base ! i)) = None"
      by (simp add: map_of_buildIndex map_of_eq_None_iff)
    with i have "?b ! i = base ! i" by (rule mergeLoop_untouched)
    with i len show "mergeNamed ord f base overlay ! i = base ! i"
      by (simp add: mergeNamed_split nth_append)
  qed
  with len show ?thesis
    by (simp add: keepsBaseOnly_def mergeNamed_split mergeLoop_names)
qed

lemma mergeNamed_appendsOverlayOnly:
  assumes "map_iteration ord"
  shows "appendsOverlayOnly base overlay (mergeNamed ord f base overlay)"
proof -
  let ?idx = "filter (\<lambda>p. fst p \<notin> fst ` set base) (buildIndex overlay)"
  let ?app = "drop (length base) (mergeNamed ord f base overlay)"
  have app: "?app = rangeMap ord ?idx"
    by (simp add: mergeNamed_split mergeLoop_length)
  have didx: "distinct (map fst ?idx)"
    using distinct_buildIndex [of overlay] by (simp add: distinct_map_filter)
  have ms: "mset ?app = mset ?idx"
    unfolding app using assms didx by (rule rangeMap_mset)
  have d: "distinct (map fst ?app)"
  proof -
    have "mset (map fst ?app) = mset (map fst ?idx)" using ms by (metis mset_map)
    with didx show ?thesis by (metis mset_eq_imp_distinct_iff)
  qed
  have s: "set ?app =
    set (filter (\<lambda>(n, v). n \<notin> fst ` set base \<and> map_of (rev overlay) n = Some v) overlay)"
  proof -
    have "set ?app = set ?idx" using ms by (rule mset_eq_setD)
    also have "\<dots> = {(k, v). k \<notin> fst ` set base \<and> map_of (rev overlay) k = Some v}"
      by (force simp: set_buildIndex)
    also have "\<dots> = set (filter (\<lambda>(n, v). n \<notin> fst ` set base \<and>
                          map_of (rev overlay) n = Some v) overlay)"
      by (force dest: map_of_SomeD)
    finally show ?thesis .
  qed
  have m: "mset ?app = mset (filter (\<lambda>(n, v). n \<notin> fst ` set base) overlay)"
    if dist: "distinct (map fst overlay)"
  proof -
    have "distinct (map fst (rev overlay))"
      using dist by (simp add: rev_map [symmetric])
    then have "\<And>n v. (n, v) \<in> set overlay \<Longrightarrow> map_of (rev overlay) n = Some v"
      by (simp only: map_of_eq_Some_iff set_rev)
    then have "filter (\<lambda>(n, v). n \<notin> fst ` set base \<and> map_of (rev overlay) n = Some v) overlay
               = filter (\<lambda>(n, v). n \<notin> fst ` set base) overlay"
      by (intro filter_cong) auto
    with s have "set ?app = set (filter (\<lambda>(n, v). n \<notin> fst ` set base) overlay)" by simp
    moreover have "distinct ?app" using d by (rule distinct_map [THEN iffD1, THEN conjunct1])
    moreover have "distinct (filter (\<lambda>(n, v). n \<notin> fst ` set base) overlay)"
      using dist by (simp add: distinct_map [THEN iffD1, THEN conjunct1])
    ultimately show ?thesis by (simp only: set_eq_iff_mset_eq_distinct)
  qed
  from d s m show ?thesis by (simp add: appendsOverlayOnly_def Let_def)
qed

lemma mergeConfig_lists:
  "Servers (mergeConfig os A B) =
     mergeNamed (serversOrd os) (\<lambda>_. mergeServer) (Servers A) (Servers B)"
  "Authorizations (mergeConfig os A B) =
     mergeNamed (authorizationsOrd os) (\<lambda>_. mergeAuthorization) (Authorizations A)
       (Authorizations B)"
  "Clusters (mergeConfig os A B) =
     mergeNamed (clustersOrd os) (\<lambda>_. mergeCluster) (Clusters A) (Clusters B)"
  "Controllers (mergeConfig os A B) =
     mergeNamed (controllersOrd os) (\<lambda>n. mergeController (envOrd os n)) (Controllers A)
       (Controllers B)"
  "Contexts (mergeConfig os A B) =
     mergeNamed (contextsOrd os) (\<lambda>_. mergeContext) (Contexts A) (Contexts B)"
  "CurrentContext (mergeConfig os A B) = mergeString (CurrentContext A) (CurrentContext B)"
  "Environment (mergeConfig os A B) = mergeString (Environment A) (Environment B)"
  by (simp_all add: mergeConfig_def Let_def mergeServers_def mergeAuthorizations_def
      mergeClusters_def mergeControllers_def mergeContexts_def)

text \<open>
  Claim C2, as amended. For every order in which the maps are visited, and for each of
  the five named lists: an entry of the base whose name the overlay does not have is
  unchanged at its position, and the entries appended after the base's entries are the
  overlay's entries of the names the base does not have, one for each name (the last
  entry of that name in the overlay), in an order that the code does not fix. When the
  overlay's names are distinct, every such entry of the overlay is appended once.
\<close>

theorem mergeConfig_preserves_unshared_entries:
  assumes "orders_ok os"
  shows "keepsBaseOnly (Servers A) (Servers B) (Servers (mergeConfig os A B)) \<and>
         appendsOverlayOnly (Servers A) (Servers B) (Servers (mergeConfig os A B)) \<and>
         keepsBaseOnly (Authorizations A) (Authorizations B)
           (Authorizations (mergeConfig os A B)) \<and>
         appendsOverlayOnly (Authorizations A) (Authorizations B)
           (Authorizations (mergeConfig os A B)) \<and>
         keepsBaseOnly (Clusters A) (Clusters B) (Clusters (mergeConfig os A B)) \<and>
         appendsOverlayOnly (Clusters A) (Clusters B) (Clusters (mergeConfig os A B)) \<and>
         keepsBaseOnly (Controllers A) (Controllers B) (Controllers (mergeConfig os A B)) \<and>
         appendsOverlayOnly (Controllers A) (Controllers B)
           (Controllers (mergeConfig os A B)) \<and>
         keepsBaseOnly (Contexts A) (Contexts B) (Contexts (mergeConfig os A B)) \<and>
         appendsOverlayOnly (Contexts A) (Contexts B) (Contexts (mergeConfig os A B))"
  using assms
  by (simp add: mergeConfig_lists orders_ok_def mergeNamed_keepsBaseOnly
      mergeNamed_appendsOverlayOnly)

text \<open>
  Claim C6. When two authorizations of one name are merged: an overlay with a token
  credential of a non-empty access token (and no client credential of a non-empty client
  id) replaces the base's credential by the overlay's token credential and clears the
  client credential; an overlay with a client credential of a non-empty client id
  replaces the base's credential by the overlay's client credential and clears the token
  credential (also when the overlay holds both: the second \<open>if\<close> wins); an overlay
  with neither leaves the base's credential unchanged.
\<close>

theorem mergeAuthorization_credential_wholesale:
  "(tokenPresent a2 \<and> \<not> clientPresent a2 \<longrightarrow>
      Credential (mergeAuthorization a1 a2) =
        \<lparr>Token = Token (Credential a2), Client = None\<rparr>) \<and>
   (clientPresent a2 \<longrightarrow>
      Credential (mergeAuthorization a1 a2) =
        \<lparr>Token = None, Client = Client (Credential a2)\<rparr>) \<and>
   (\<not> tokenPresent a2 \<and> \<not> clientPresent a2 \<longrightarrow>
      Credential (mergeAuthorization a1 a2) = Credential a1)"
  by (simp add: mergeAuthorization_def Let_def)

lemma map_iteration_stored: "map_iteration (\<lambda>ks. ks)"
  by (simp add: map_iteration_def)

lemma map_iteration_rev: "map_iteration rev"
  by (simp add: map_iteration_def)

lemma orders_ok_stored: "orders_ok storedOrders"
  by (simp add: orders_ok_def storedOrders_def map_iteration_stored)

lemma orders_ok_reversed: "orders_ok reversedOrders"
  by (simp add: orders_ok_def reversedOrders_def map_iteration_rev)

lemmas merge_eval =
  mergeConfig_def mergeServers_def mergeAuthorizations_def mergeClusters_def
  mergeControllers_def mergeContexts_def mergeNamed_def buildIndex_def rangeMap_def
  mergeString_def Let_def emptyConfig_def

lemma servers_reversed:
  "Servers (mergeConfig reversedOrders emptyConfig cfgServersAB) =
     [(''b'', serverY), (''a'', serverX)]"
  by (simp add: merge_eval reversedOrders_def cfgServersAB_def)

lemma servers_dup:
  "Servers (mergeConfig storedOrders emptyConfig cfgServersAA) = [(''a'', serverY)]"
  by (simp add: merge_eval storedOrders_def cfgServersAA_def)

lemma serverXY: "serverX \<noteq> serverY"
  by (simp add: serverX_def serverY_def emptyServer_def)

text \<open>
  Claim C2, as stated, fails: with the index visited in the reverse of the overlay's
  order the two servers of the overlay are appended as \<open>b, a\<close>; and of two overlay
  entries named \<open>a\<close> only the last is appended, the first is lost.
\<close>

theorem merge_appends_in_overlay_order_counterexample:
  "orders_ok reversedOrders \<and> orders_ok storedOrders \<and>
   \<not> appendsInOrder (Servers emptyConfig) (Servers cfgServersAB)
        (Servers (mergeConfig reversedOrders emptyConfig cfgServersAB)) \<and>
   (''a'', serverX) \<in> set (Servers cfgServersAA) \<and>
   ''a'' \<notin> fst ` set (Servers emptyConfig) \<and>
   (''a'', serverX) \<notin> set (Servers (mergeConfig storedOrders emptyConfig cfgServersAA))"
proof -
  have "\<not> appendsInOrder (Servers emptyConfig) (Servers cfgServersAB)
        (Servers (mergeConfig reversedOrders emptyConfig cfgServersAB))"
    unfolding servers_reversed
    by (simp add: appendsInOrder_def emptyConfig_def cfgServersAB_def)
  moreover have "(''a'', serverX) \<in> set (Servers cfgServersAA)"
    by (simp add: cfgServersAA_def)
  moreover have "''a'' \<notin> fst ` set (Servers emptyConfig)"
    by (simp add: emptyConfig_def)
  moreover have "(''a'', serverX) \<notin> set (Servers (mergeConfig storedOrders emptyConfig cfgServersAA))"
    unfolding servers_dup using serverXY by simp
  ultimately show ?thesis using orders_ok_reversed orders_ok_stored by simp
qed

lemma servers_witness_eval:
  "Servers (mergeConfig reversedOrders cfgServersCA cfgServersAB) =
     [(''c'', serverY), (''a'', serverX), (''b'', serverY)]"
  by (simp add: merge_eval reversedOrders_def cfgServersAB_def cfgServersCA_def
      mergeServer_def serverX_def serverY_def emptyServer_def emptyAPIServer_def
      emptyAuthorizationServer_def emptyApplicationServer_def)

text \<open>
  Claim C2, at a concrete input: base servers \<open>c, a\<close>, overlay servers \<open>a, b\<close>,
  the index visited in reverse.
\<close>

theorem mergeConfig_preserves_unshared_entries_witness:
  "orders_ok reversedOrders \<and>
   keepsBaseOnly (Servers cfgServersCA) (Servers cfgServersAB)
     (Servers (mergeConfig reversedOrders cfgServersCA cfgServersAB)) \<and>
   appendsOverlayOnly (Servers cfgServersCA) (Servers cfgServersAB)
     (Servers (mergeConfig reversedOrders cfgServersCA cfgServersAB)) \<and>
   Servers (mergeConfig reversedOrders cfgServersCA cfgServersAB) =
     [(''c'', serverY), (''a'', serverX), (''b'', serverY)]"
  using orders_ok_reversed
    mergeConfig_preserves_unshared_entries [OF orders_ok_reversed, of cfgServersCA cfgServersAB]
    servers_witness_eval
  by simp

text \<open>
  Claim C6, at concrete inputs: a token overlay onto a client base, a client overlay onto
  a token base, an empty overlay onto a token base.
\<close>

theorem mergeAuthorization_credential_wholesale_witness:
  "tokenPresent authToken \<and> \<not> clientPresent authToken \<and>
   Credential (mergeAuthorization authClient authToken) = \<lparr>Token = Some tokenT, Client = None\<rparr> \<and>
   clientPresent authClient \<and>
   Credential (mergeAuthorization authToken authClient) = \<lparr>Token = None, Client = Some clientC\<rparr> \<and>
   \<not> tokenPresent emptyAuthorization \<and> \<not> clientPresent emptyAuthorization \<and>
   Credential (mergeAuthorization authToken emptyAuthorization) = Credential authToken"
proof -
  have t: "tokenPresent authToken" "\<not> clientPresent authToken"
    by (simp_all add: tokenPresent_def clientPresent_def authToken_def tokenT_def
        emptyTokenCredential_def)
  have c: "clientPresent authClient"
    by (simp add: clientPresent_def authClient_def clientC_def emptyClientCredential_def)
  have e: "\<not> tokenPresent emptyAuthorization" "\<not> clientPresent emptyAuthorization"
    by (simp_all add: tokenPresent_def clientPresent_def emptyAuthorization_def
        emptyCredential_def)
  from t mergeAuthorization_credential_wholesale [of authToken authClient]
  have 1: "Credential (mergeAuthorization authClient authToken) =
      \<lparr>Token = Some tokenT, Client = None\<rparr>"
    by (simp add: authToken_def)
  from c mergeAuthorization_credential_wholesale [of authClient authToken]
  have 2: "Credential (mergeAuthorization authToken authClient) =
      \<lparr>Token = None, Client = Some clientC\<rparr>"
    by (simp add: authClient_def)
  from e mergeAuthorization_credential_wholesale [of emptyAuthorization authToken]
  have 3: "Credential (mergeAuthorization authToken emptyAuthorization) = Credential authToken"
    by simp
  from t c e 1 2 3 show ?thesis by simp
qed

lemma map_iteration_single: "map_iteration ord \<Longrightarrow> ord [k] = [k]"
  by (metis map_iteration_def mset_single_iff mset.simps(1) mset.simps(2))

lemma map_iteration_nil: "map_iteration ord \<Longrightarrow> ord [] = []"
  by (metis map_iteration_def mset_zero_iff mset.simps(1))

lemma mergeController_env_empty_value:
  assumes "map_iteration ord"
  shows "Env (mergeController ord (emptyController\<lparr>Env := es\<rparr>)
            (emptyController\<lparr>Env := [(''A'', [])]\<rparr>)) = es @ [(''A'', [])]"
proof -
  have loop: "mergeEnvLoop es [(''A'', [])] = (es, [(''A'', [])])"
    by (induction es) (auto simp: lookupString_def)
  show ?thesis
    by (simp add: mergeController_def buildIndex_def loop rangeMap_def
        map_iteration_single [OF assms])
qed

lemma mergeController_env_scalars:
  "mergeController ord (emptyController\<lparr>Env := es\<rparr>) (emptyController\<lparr>Env := es'\<rparr>) =
     emptyController\<lparr>Env := Env (mergeController ord (emptyController\<lparr>Env := es\<rparr>)
       (emptyController\<lparr>Env := es'\<rparr>))\<rparr>"
  by (simp add: mergeController_def emptyController_def mergeString_def split_beta)

lemma controllers_env_merge:
  assumes "orders_ok os"
  shows "Controllers (mergeConfig os (emptyConfig\<lparr>Controllers :=
            [(''c'', emptyController\<lparr>Env := es\<rparr>)]\<rparr>) cfgEnvOverlay) =
         [(''c'', emptyController\<lparr>Env := es @ [(''A'', [])]\<rparr>)]"
proof -
  have e: "map_iteration (envOrd os ''c'')" and c: "map_iteration (controllersOrd os)"
    using assms by (simp_all add: orders_ok_def)
  show ?thesis
    apply (simp add: mergeConfig_lists cfgEnvOverlay_def emptyConfig_def mergeNamed_def
        buildIndex_def rangeMap_def map_iteration_nil [OF c])
    apply (subst mergeController_env_scalars)
    apply (simp add: mergeController_env_empty_value [OF e])
    done
qed

text \<open>
  Claim C3 fails on the code. Base: controller \<open>c\<close> with the environment
  \<open>[(A, 1)]\<close>; overlay: controller \<open>c\<close> with \<open>[(A, '''')]\<close>. The test
  \<open>v != ""\<close> of \<open>mergeController\<close> takes the variable stored with the empty value
  for an absent one, leaves it in the index, and the last loop appends it: every merge of
  this overlay adds one more \<open>(A, '''')\<close>, whatever the order of the maps, so the
  second merge does not give the result of the first.
\<close>

theorem merge_twice_env_empty_value:
  assumes "orders_ok os" and "orders_ok os'"
  shows "Controllers (mergeConfig os cfgEnvBase cfgEnvOverlay) =
           [(''c'', emptyController\<lparr>Env := [(''A'', ''1''), (''A'', '''')]\<rparr>)] \<and>
         Controllers (mergeConfig os' (mergeConfig os cfgEnvBase cfgEnvOverlay) cfgEnvOverlay) =
           [(''c'', emptyController\<lparr>Env := [(''A'', ''1''), (''A'', ''''), (''A'', '''')]\<rparr>)] \<and>
         mergeConfig os' (mergeConfig os cfgEnvBase cfgEnvOverlay) cfgEnvOverlay \<noteq>
           mergeConfig os cfgEnvBase cfgEnvOverlay"
proof -
  have once: "mergeConfig os cfgEnvBase cfgEnvOverlay =
     emptyConfig\<lparr>Controllers := [(''c'', emptyController\<lparr>Env := [(''A'', ''1''), (''A'', '''')]\<rparr>)]\<rparr>"
  proof -
    have "Controllers (mergeConfig os cfgEnvBase cfgEnvOverlay) =
       [(''c'', emptyController\<lparr>Env := [(''A'', ''1''), (''A'', '''')]\<rparr>)]"
      using controllers_env_merge [OF assms(1), of "[(''A'', ''1'')]"]
      by (simp add: cfgEnvBase_def)
    moreover have "Servers (mergeConfig os cfgEnvBase cfgEnvOverlay) = []"
      "Authorizations (mergeConfig os cfgEnvBase cfgEnvOverlay) = []"
      "Clusters (mergeConfig os cfgEnvBase cfgEnvOverlay) = []"
      "Contexts (mergeConfig os cfgEnvBase cfgEnvOverlay) = []"
      "CurrentContext (mergeConfig os cfgEnvBase cfgEnvOverlay) = []"
      "Environment (mergeConfig os cfgEnvBase cfgEnvOverlay) = []"
      using assms(1)
      by (simp_all add: mergeConfig_lists cfgEnvBase_def cfgEnvOverlay_def emptyConfig_def
          mergeNamed_def buildIndex_def rangeMap_def mergeString_def orders_ok_def
          map_iteration_nil)
    ultimately show ?thesis by (simp add: emptyConfig_def)
  qed
  have twice: "Controllers (mergeConfig os' (mergeConfig os cfgEnvBase cfgEnvOverlay) cfgEnvOverlay) =
           [(''c'', emptyController\<lparr>Env := [(''A'', ''1''), (''A'', ''''), (''A'', '''')]\<rparr>)]"
    unfolding once
    using controllers_env_merge [OF assms(2), of "[(''A'', ''1''), (''A'', '''')]"] by simp
  have "Controllers (mergeConfig os' (mergeConfig os cfgEnvBase cfgEnvOverlay) cfgEnvOverlay) \<noteq>
        Controllers (mergeConfig os cfgEnvBase cfgEnvOverlay)"
    unfolding twice unfolding once by (simp add: emptyController_def)
  then have "mergeConfig os' (mergeConfig os cfgEnvBase cfgEnvOverlay) cfgEnvOverlay \<noteq>
           mergeConfig os cfgEnvBase cfgEnvOverlay" by metis
  with once twice show ?thesis by simp
qed

text \<open>
  Claim C3, the failing input with the maps visited as stored in the first merge and in
  reverse in the second.
\<close>

theorem merge_twice_env_empty_value_witness:
  "orders_ok storedOrders \<and> orders_ok reversedOrders \<and>
   mergeConfig reversedOrders (mergeConfig storedOrders cfgEnvBase cfgEnvOverlay) cfgEnvOverlay \<noteq>
     mergeConfig storedOrders cfgEnvBase cfgEnvOverlay"
  using orders_ok_stored orders_ok_reversed
    merge_twice_env_empty_value [OF orders_ok_stored orders_ok_reversed]
  by simp

section \<open>Properties of the changes\<close>

lemma splitOn_not_Nil: "splitOn c s \<noteq> []"
  by (induction s) (auto split: list.splits)

lemma splitOn_no_separator: "c \<notin> set w \<Longrightarrow> splitOn c w = [w]"
  by (induction w) auto

lemma splitOn_segment: "c \<notin> set w \<Longrightarrow> splitOn c (w @ c # rest) = w # splitOn c rest"
  by (induction w) (auto split: list.splits simp: splitOn_not_Nil)

lemma ToLower_PROD: "ToLower uni ''PROD'' = ''prod''"
  by code_simp

lemma SetExecutionEnvironment_cases:
  "SetExecutionEnvironment uni env cfg =
     (if env = '''' then
        (cfg\<lparr>Environment :=
           (if Environment cfg = ''production'' then '''' else Environment cfg)\<rparr>, None)
      else if ToLower uni env = ''production'' \<or> ToLower uni env = ''prod'' then
        (cfg\<lparr>Environment := ''''\<rparr>, None)
      else if ToLower uni env = ''staging'' \<or> ToLower uni env = ''stage'' then
        (cfg\<lparr>Environment := ''staging''\<rparr>, None)
      else if ToLower uni env = ''development'' \<or> ToLower uni env = ''dev'' then
        (cfg\<lparr>Environment := ''development''\<rparr>, None)
      else (cfg, Some (UnknownEnvironment env)))"
  by (simp add: SetExecutionEnvironment_def Let_def mergeString_def environmentProduction_def
      environmentStaging_def environmentDevelopment_def)

text \<open>
  Claim C5, as amended. For every input string: an alias of production, staging or
  development (compared after \<open>strings.ToLower\<close>) stores the empty string,
  \<open>staging\<close> or \<open>development\<close>; any other non-empty string fails with the
  unknown-environment error and leaves the configuration as it was; the empty string
  succeeds and leaves the stored environment as it was (unset when it was unset), except
  that a stored \<open>production\<close> is cleared. After a success the stored environment is
  never \<open>production\<close>, and \<open>PROD\<close> stores the empty string.
\<close>

theorem SetExecutionEnvironment_normalizes:
  "(env \<noteq> '''' \<and> (ToLower uni env = ''production'' \<or> ToLower uni env = ''prod'') \<longrightarrow>
      SetExecutionEnvironment uni env cfg = (cfg\<lparr>Environment := ''''\<rparr>, None)) \<and>
   (env \<noteq> '''' \<and> (ToLower uni env = ''staging'' \<or> ToLower uni env = ''stage'') \<longrightarrow>
      SetExecutionEnvironment uni env cfg = (cfg\<lparr>Environment := ''staging''\<rparr>, None)) \<and>
   (env \<noteq> '''' \<and> (ToLower uni env = ''development'' \<or> ToLower uni env = ''dev'') \<longrightarrow>
      SetExecutionEnvironment uni env cfg = (cfg\<lparr>Environment := ''development''\<rparr>, None)) \<and>
   (env \<noteq> '''' \<and> ToLower uni env \<notin> {''production'', ''prod'', ''staging'', ''stage'',
        ''development'', ''dev''} \<longrightarrow>
      SetExecutionEnvironment uni env cfg = (cfg, Some (UnknownEnvironment env))) \<and>
   SetExecutionEnvironment uni '''' cfg =
     (cfg\<lparr>Environment :=
        (if Environment cfg = ''production'' then '''' else Environment cfg)\<rparr>, None) \<and>
   (snd (SetExecutionEnvironment uni env cfg) = None \<longrightarrow>
      Environment (fst (SetExecutionEnvironment uni env cfg)) \<noteq> ''production'') \<and>
   SetExecutionEnvironment uni ''PROD'' cfg = (cfg\<lparr>Environment := ''''\<rparr>, None)"
proof -
  have "SetExecutionEnvironment uni ''PROD'' cfg = (cfg\<lparr>Environment := ''''\<rparr>, None)"
    by (simp add: SetExecutionEnvironment_cases ToLower_PROD)
  then show ?thesis by (simp add: SetExecutionEnvironment_cases)
qed

text \<open>
  Claim C5, at concrete inputs: \<open>Stage\<close> and \<open>qa\<close> on the empty configuration,
  \<open>PROD\<close> on a configuration that stores \<open>staging\<close>.
\<close>

theorem SetExecutionEnvironment_normalizes_witness:
  "ToLower noUnicode ''Stage'' = ''stage'' \<and>
   SetExecutionEnvironment noUnicode ''Stage'' emptyConfig =
     (emptyConfig\<lparr>Environment := ''staging''\<rparr>, None) \<and>
   ToLower noUnicode ''qa'' \<notin> {''production'', ''prod'', ''staging'', ''stage'',
        ''development'', ''dev''} \<and>
   SetExecutionEnvironment noUnicode ''qa'' emptyConfig =
     (emptyConfig, Some (UnknownEnvironment ''qa'')) \<and>
   snd (SetExecutionEnvironment noUnicode ''PROD'' cfgStaging) = None \<and>
   Environment (fst (SetExecutionEnvironment noUnicode ''PROD'' cfgStaging)) \<noteq> ''production''"
proof -
  have s: "ToLower noUnicode ''Stage'' = ''stage''" by code_simp
  have q: "ToLower noUnicode ''qa'' = ''qa''" by code_simp
  have p: "snd (SetExecutionEnvironment noUnicode ''PROD'' cfgStaging) = None"
    by (simp add: SetExecutionEnvironment_cases ToLower_PROD)
  from s q p SetExecutionEnvironment_normalizes [of "''Stage''" noUnicode emptyConfig]
    SetExecutionEnvironment_normalizes [of "''qa''" noUnicode emptyConfig]
    SetExecutionEnvironment_normalizes [of "''PROD''" noUnicode cfgStaging]
  show ?thesis by simp
qed

text \<open>
  Claim C5, as stated, fails: applied with the empty string to a configuration that
  stores \<open>staging\<close>, the change succeeds and the stored environment is still
  \<open>staging\<close>, not unset.
\<close>

theorem SetExecutionEnvironment_empty_keeps_staging_counterexample:
  "Environment (fst (SetExecutionEnvironment noUnicode '''' cfgStaging)) = ''staging'' \<and>
   snd (SetExecutionEnvironment noUnicode '''' cfgStaging) = None"
  by (simp add: SetExecutionEnvironment_cases cfgStaging_def emptyConfig_def)

lemma setClusterProperty_unknown_field:
  assumes "field \<noteq> ''context''" "field \<noteq> ''bin''" "field \<noteq> ''controller''"
  shows "setClusterProperty cfg n field value =
     (cfg, Some (if findCluster (Clusters cfg) n = None then UnknownCluster n
                 else UnknownProperty field))"
  using assms by (simp add: setClusterProperty_def split: option.splits)

lemma setContextProperty_unknown_field:
  assumes "field \<noteq> ''server''" "field \<noteq> ''authorization''" "field \<noteq> ''cluster''"
  shows "setContextProperty cfg n field value =
     (cfg, Some (if findContext (Contexts cfg) n = None then UnknownContext n
                 else UnknownProperty field))"
  using assms by (simp add: setContextProperty_def split: option.splits)

text \<open>
  Claim C8, as amended. For every path outside the grammar, other than \<open>env\<close> and
  other than a path whose first segment is \<open>current-context\<close>, for every value and
  every configuration, the change fails and leaves the configuration as it was. The
  error is the unknown property, except for a three-segment path under \<open>cluster\<close>
  or \<open>context\<close> whose name is not in the list: there it is the unknown cluster or
  the unknown context.
\<close>

theorem SetProperty_outside_grammar:
  assumes "\<not> pathInGrammar name" and "name \<noteq> ''env''"
    and "firstSegment name \<noteq> ''current-context''"
  shows "SetProperty uni os name value cfg = (cfg, Some (unknownPathError cfg name))"
proof -
  define path where "path = splitOn CHR ''.'' name"
  obtain p0 rest where path: "path = p0 # rest"
    using splitOn_not_Nil [of "CHR ''.''" name] by (cases path) (auto simp: path_def)
  from assms(3) path have p0: "p0 \<noteq> ''current-context''"
    by (simp add: firstSegment_def path_def)
  have hd: "path ! 0 = p0" by (simp add: path)
  have sp: "SetProperty uni os name value cfg =
     (if p0 = ''cluster'' \<and> length path = 3 then
        setClusterProperty cfg (path ! 1) (path ! 2) value
      else if p0 = ''controller'' \<and> length path = 4 \<and> path ! 2 = ''env'' then
        (mergeControllers (controllersOrd os) (envOrd os) cfg
           [(path ! 1, emptyController\<lparr>Env := [(path ! 3, value)]\<rparr>)], None)
      else if p0 = ''context'' \<and> length path = 3 then
        setContextProperty cfg (path ! 1) (path ! 2) value
      else (cfg, Some (UnknownProperty name)))"
    using assms(2) p0 path
    by (simp only: SetProperty_def Let_def if_False path_def [symmetric] list.case)
  have up: "unknownPathError cfg name =
     (if length path = 3 \<and> p0 = ''cluster'' then
        (if findCluster (Clusters cfg) (path ! 1) = None then UnknownCluster (path ! 1)
         else UnknownProperty (path ! 2))
      else if length path = 3 \<and> p0 = ''context'' then
        (if findContext (Contexts cfg) (path ! 1) = None then UnknownContext (path ! 1)
         else UnknownProperty (path ! 2))
      else UnknownProperty name)"
    by (simp only: unknownPathError_def Let_def path_def [symmetric] hd)
  have ng: "\<not> (length path = 3 \<and> p0 = ''cluster'' \<and>
         (path ! 2 = ''context'' \<or> path ! 2 = ''bin'' \<or> path ! 2 = ''controller''))"
    "\<not> (length path = 4 \<and> p0 = ''controller'' \<and> path ! 2 = ''env'')"
    "\<not> (length path = 3 \<and> p0 = ''context'' \<and>
         (path ! 2 = ''server'' \<or> path ! 2 = ''authorization'' \<or> path ! 2 = ''cluster''))"
    using assms(1) unfolding pathInGrammar_def Let_def path_def [symmetric] hd by blast+
  consider (inCluster) "p0 = ''cluster''" "length path = 3"
    | (inContext) "p0 = ''context''" "length path = 3"
    | (other) "\<not> (p0 = ''cluster'' \<and> length path = 3)" "\<not> (p0 = ''context'' \<and> length path = 3)"
    by blast
  then show ?thesis
  proof cases
    case inCluster
    with inCluster ng(1) have f: "path ! 2 \<noteq> ''context''" "path ! 2 \<noteq> ''bin''" "path ! 2 \<noteq> ''controller''"
      by blast+
    from inCluster show ?thesis
      unfolding sp up by (simp add: setClusterProperty_unknown_field [OF f])
  next
    case inContext
    with inContext ng(3) have f: "path ! 2 \<noteq> ''server''" "path ! 2 \<noteq> ''authorization''"
      "path ! 2 \<noteq> ''cluster''"
      by blast+
    from inContext show ?thesis
      unfolding sp up by (simp add: setContextProperty_unknown_field [OF f])
  next
    case other
    have nc: "\<not> (p0 = ''controller'' \<and> length path = 4 \<and> path ! 2 = ''env'')"
      "\<not> (length path = 3 \<and> p0 = ''cluster'')" "\<not> (length path = 3 \<and> p0 = ''context'')"
      using other ng(2) by blast+
    show ?thesis
      unfolding sp up by (simp only: other nc if_False)
  qed
qed

text \<open>
  Claim C8, as stated, fails: the path \<open>env\<close> is outside the grammar and is accepted
  (it sets the execution environment); \<open>cluster.nosuch.bogus\<close> on a configuration
  without the cluster fails with the unknown cluster, not with the unknown property; and
  \<open>current-context.x\<close> is accepted as \<open>current-context\<close> is (the first
  segment alone is looked at).
\<close>

theorem SetProperty_outside_grammar_counterexample:
  "\<not> pathInGrammar ''env'' \<and>
   SetProperty noUnicode storedOrders ''env'' ''staging'' emptyConfig =
     (emptyConfig\<lparr>Environment := ''staging''\<rparr>, None) \<and>
   \<not> pathInGrammar ''cluster.nosuch.bogus'' \<and>
   SetProperty noUnicode storedOrders ''cluster.nosuch.bogus'' ''v'' emptyConfig =
     (emptyConfig, Some (UnknownCluster ''nosuch'')) \<and>
   \<not> pathInGrammar ''current-context.x'' \<and>
   SetProperty noUnicode storedOrders ''current-context.x'' ''v'' emptyConfig =
     (emptyConfig\<lparr>CurrentContext := ''v''\<rparr>, None)"
proof -
  have "ToLower noUnicode ''staging'' = ''staging''" by code_simp
  then have "SetProperty noUnicode storedOrders ''env'' ''staging'' emptyConfig =
     (emptyConfig\<lparr>Environment := ''staging''\<rparr>, None)"
    by (simp add: SetProperty_def SetExecutionEnvironment_cases)
  moreover have "SetProperty noUnicode storedOrders ''cluster.nosuch.bogus'' ''v'' emptyConfig =
     (emptyConfig, Some (UnknownCluster ''nosuch''))"
    by (simp add: SetProperty_def setClusterProperty_def findCluster_def emptyConfig_def)
  moreover have "SetProperty noUnicode storedOrders ''current-context.x'' ''v'' emptyConfig =
     (emptyConfig\<lparr>CurrentContext := ''v''\<rparr>, None)"
    by (simp add: SetProperty_def)
  moreover have "\<not> pathInGrammar ''env''" "\<not> pathInGrammar ''cluster.nosuch.bogus''"
    "\<not> pathInGrammar ''current-context.x''"
    by (simp_all add: pathInGrammar_def)
  ultimately show ?thesis by simp
qed

text \<open>
  Claim C8, at concrete inputs: the paths \<open>servers.x\<close> and \<open>context.foo.bogus\<close>
  on a configuration with the context \<open>foo\<close>.
\<close>

theorem SetProperty_outside_grammar_witness:
  "\<not> pathInGrammar ''servers.x'' \<and> ''servers.x'' \<noteq> ''env'' \<and>
   firstSegment ''servers.x'' \<noteq> ''current-context'' \<and>
   SetProperty noUnicode storedOrders ''servers.x'' ''v'' cfgContextFoo =
     (cfgContextFoo, Some (UnknownProperty ''servers.x'')) \<and>
   \<not> pathInGrammar ''context.foo.bogus'' \<and>
   SetProperty noUnicode storedOrders ''context.foo.bogus'' ''v'' cfgContextFoo =
     (cfgContextFoo, Some (UnknownProperty ''bogus''))"
proof -
  have a: "\<not> pathInGrammar ''servers.x''" "''servers.x'' \<noteq> ''env''"
    "firstSegment ''servers.x'' \<noteq> ''current-context''"
    by (simp_all add: pathInGrammar_def firstSegment_def)
  have b: "\<not> pathInGrammar ''context.foo.bogus''" "''context.foo.bogus'' \<noteq> ''env''"
    "firstSegment ''context.foo.bogus'' \<noteq> ''current-context''"
    by (simp_all add: pathInGrammar_def firstSegment_def)
  have ea: "unknownPathError cfgContextFoo ''servers.x'' = UnknownProperty ''servers.x''"
    by (simp add: unknownPathError_def)
  have eb: "unknownPathError cfgContextFoo ''context.foo.bogus'' = UnknownProperty ''bogus''"
    by (simp add: unknownPathError_def findContext_def cfgContextFoo_def)
  from SetProperty_outside_grammar [OF a, of noUnicode storedOrders "''v''" cfgContextFoo]
    SetProperty_outside_grammar [OF b, of noUnicode storedOrders "''v''" cfgContextFoo]
    a b ea eb
  show ?thesis by simp
qed

lemma split_context_path:
  assumes "CHR ''.'' \<notin> set name" and "CHR ''.'' \<notin> set field"
  shows "splitOn CHR ''.'' (''context.'' @ name @ ''.'' @ field) = [''context'', name, field]"
proof -
  have "splitOn CHR ''.'' (''context'' @ CHR ''.'' # (name @ CHR ''.'' # field)) =
        ''context'' # splitOn CHR ''.'' (name @ CHR ''.'' # field)"
    by (rule splitOn_segment) simp
  also have "splitOn CHR ''.'' (name @ CHR ''.'' # field) = name # splitOn CHR ''.'' field"
    using assms(1) by (rule splitOn_segment)
  also have "splitOn CHR ''.'' field = [field]"
    using assms(2) by (rule splitOn_no_separator)
  finally show ?thesis by simp
qed

text \<open>
  Claim C9, as amended. For every configuration, every context name (one segment, no
  dot) and every value that names no entry of the list the field refers to, the change
  of \<open>context.<name>.server\<close> (\<open>.authorization\<close>, \<open>.cluster\<close>) fails and
  leaves the configuration as it was: with the unknown reference when the context
  exists, and with the unknown context when it does not.
\<close>

theorem SetProperty_context_unknown_reference:
  assumes "CHR ''.'' \<notin> set name"
  shows
    "(findServer (Servers cfg) value = None \<longrightarrow>
        SetProperty uni os (''context.'' @ name @ ''.server'') value cfg =
          (cfg, Some (if findContext (Contexts cfg) name = None then UnknownContext name
                      else UnknownReference ''server'' value))) \<and>
     (findAuthorization (Authorizations cfg) value = None \<longrightarrow>
        SetProperty uni os (''context.'' @ name @ ''.authorization'') value cfg =
          (cfg, Some (if findContext (Contexts cfg) name = None then UnknownContext name
                      else UnknownReference ''authorization'' value))) \<and>
     (findCluster (Clusters cfg) value = None \<longrightarrow>
        SetProperty uni os (''context.'' @ name @ ''.cluster'') value cfg =
          (cfg, Some (if findContext (Contexts cfg) name = None then UnknownContext name
                      else UnknownReference ''cluster'' value)))"
proof -
  have s: "splitOn CHR ''.'' (''context.'' @ name @ ''.server'') = [''context'', name, ''server'']"
    using split_context_path [OF assms, of "''server''"] by simp
  have a: "splitOn CHR ''.'' (''context.'' @ name @ ''.authorization'') =
      [''context'', name, ''authorization'']"
    using split_context_path [OF assms, of "''authorization''"] by simp
  have c: "splitOn CHR ''.'' (''context.'' @ name @ ''.cluster'') = [''context'', name, ''cluster'']"
    using split_context_path [OF assms, of "''cluster''"] by simp
  have ne: "''context.'' @ name @ ''.server'' \<noteq> ''env''"
    "''context.'' @ name @ ''.authorization'' \<noteq> ''env''"
    "''context.'' @ name @ ''.cluster'' \<noteq> ''env''"
    by simp_all
  show ?thesis
    by (simp only: SetProperty_def ne if_False Let_def s a c)
       (simp add: setContextProperty_def split: option.splits)
qed

text \<open>
  Claim C9, as stated, fails: on the empty configuration the change of
  \<open>context.foo.server\<close> to \<open>nosuch\<close> fails with the unknown context \<open>foo\<close>,
  not with an unknown reference.
\<close>

theorem SetProperty_context_unknown_reference_counterexample:
  "findServer (Servers emptyConfig) ''nosuch'' = None \<and>
   SetProperty noUnicode storedOrders ''context.foo.server'' ''nosuch'' emptyConfig =
     (emptyConfig, Some (UnknownContext ''foo''))"
  by (simp add: SetProperty_def setContextProperty_def findContext_def findServer_def
      emptyConfig_def)

text \<open>
  Claim C9, at a concrete input: the context \<open>foo\<close> exists and no server is named
  \<open>nosuch\<close>.
\<close>

theorem SetProperty_context_unknown_reference_witness:
  "CHR ''.'' \<notin> set ''foo'' \<and> findServer (Servers cfgContextFoo) ''nosuch'' = None \<and>
   SetProperty noUnicode storedOrders ''context.foo.server'' ''nosuch'' cfgContextFoo =
     (cfgContextFoo, Some (UnknownReference ''server'' ''nosuch''))"
proof -
  have d: "CHR ''.'' \<notin> set ''foo''" by simp
  have f: "findServer (Servers cfgContextFoo) ''nosuch'' = None"
    by (simp add: findServer_def cfgContextFoo_def emptyConfig_def)
  have c: "findContext (Contexts cfgContextFoo) ''foo'' \<noteq> None"
    by (simp add: findContext_def cfgContextFoo_def)
  from SetProperty_context_unknown_reference [OF d, of cfgContextFoo "''nosuch''" noUnicode
      storedOrders] d f c
  show ?thesis by simp
qed

section \<open>Properties of the default resolution\<close>

lemma find_None:
  "(findServer l1 n = None) = (n \<notin> fst ` set l1)"
  "(findAuthorization l2 n = None) = (n \<notin> fst ` set l2)"
  "(findCluster l3 n = None) = (n \<notin> fst ` set l3)"
  "(findController l4 n = None) = (n \<notin> fst ` set l4)"
  "(findContext l5 n = None) = (n \<notin> fst ` set l5)"
  by (simp_all add: findServer_def findAuthorization_def findCluster_def findController_def
      findContext_def map_of_eq_None_iff)

lemma defaultString_empty: "defaultString '''' v = v"
  by (simp add: defaultString_def)

lemma impliedName_single:
  "length l = 1 \<Longrightarrow> impliedName (map fst l) name aux fallback =
     (if name \<in> fst ` set l then Some name
      else if (case aux of None \<Rightarrow> False | Some k \<Rightarrow> k \<in> fst ` set l) then aux
      else Some (fst (l ! 0)))"
  by (cases l) (auto simp: impliedName_def split: option.splits)

lemma impliedName_many:
  "length l \<noteq> 1 \<Longrightarrow> impliedName (map fst l) name aux fallback =
     (if name \<in> fst ` set l then Some name
      else if (case aux of None \<Rightarrow> False | Some k \<Rightarrow> k \<in> fst ` set l) then aux
      else if fallback \<in> fst ` set l then Some fallback else None)"
  by (auto simp: impliedName_def split: option.splits)

lemma defaultServerName_empty:
  "defaultServerName servers '''' name =
     resolved (NoDefaultServer name) (impliedName (map fst servers) name None ''default'')"
  by (cases "length servers = 1")
     (simp_all add: impliedName_single impliedName_many defaultServerName_def find_None
        defaultString_empty resolved_def)

lemma defaultAuthorizationName_empty:
  "defaultAuthorizationName authorizations '''' name server =
     resolved (NoDefaultAuthorization name)
       (impliedName (map fst authorizations) name (Some server) ''default'')"
  by (cases "length authorizations = 1")
     (simp_all add: impliedName_single impliedName_many defaultAuthorizationName_def
        find_None defaultString_empty resolved_def)

lemma defaultClusterName_empty:
  "defaultClusterName clusters clusterName '''' name =
     resolved (NoDefaultCluster name) (impliedName (map fst clusters) name None clusterName)"
  by (cases "length clusters = 1")
     (simp_all add: impliedName_single impliedName_many defaultClusterName_def find_None
        defaultString_empty resolved_def)

lemma defaultControllerName_empty:
  "defaultControllerName controllers clusterName '''' name =
     resolved (NoDefaultController name)
       (impliedName (map fst controllers) name None clusterName)"
  by (cases "length controllers = 1")
     (simp_all add: impliedName_single impliedName_many defaultControllerName_def
        find_None defaultString_empty resolved_def)

lemma impliedName_match:
  "name \<in> set names \<Longrightarrow> resolved e (impliedName names name aux fallback) = Inr name"
  by (simp add: impliedName_def resolved_def)

text \<open>
  Claim C1, as amended. For an empty reference field the default name functions try,
  in this order: the entry named after the enclosing entity; for an authorization, the
  entry named after the resolved server; the sole entry of a list of one; an entry
  named \<open>default\<close> for servers and authorizations, and an entry named after the
  discovered cluster name (which is \<open>default\<close> only when the discovery fails) for
  clusters and controllers. When none matches, the error names the enclosing entity.
  In particular an entry named after the enclosing entity is chosen whenever there is
  one.
\<close>

theorem implied_name_strategies:
  "defaultServerName servers '''' name =
     resolved (NoDefaultServer name) (impliedName (map fst servers) name None ''default'') \<and>
   defaultAuthorizationName authorizations '''' name server =
     resolved (NoDefaultAuthorization name)
       (impliedName (map fst authorizations) name (Some server) ''default'') \<and>
   defaultClusterName clusters clusterName '''' name =
     resolved (NoDefaultCluster name) (impliedName (map fst clusters) name None clusterName) \<and>
   defaultControllerName controllers clusterName '''' name =
     resolved (NoDefaultController name)
       (impliedName (map fst controllers) name None clusterName) \<and>
   (name \<in> set (map fst servers) \<longrightarrow> defaultServerName servers '''' name = Inr name) \<and>
   (name \<in> set (map fst authorizations) \<longrightarrow>
      defaultAuthorizationName authorizations '''' name server = Inr name) \<and>
   (name \<in> set (map fst clusters) \<longrightarrow>
      defaultClusterName clusters clusterName '''' name = Inr name) \<and>
   (name \<in> set (map fst controllers) \<longrightarrow>
      defaultControllerName controllers clusterName '''' name = Inr name)"
  unfolding defaultServerName_empty defaultAuthorizationName_empty defaultClusterName_empty
    defaultControllerName_empty
  by (intro conjI impI refl impliedName_match)

text \<open>
  Claim C1, at concrete inputs: an authorization found by the server's name, a cluster
  found by the discovered cluster name, a cluster found by the context's own name, and
  a failure on an empty list.
\<close>

theorem implied_name_strategies_witness:
  "defaultAuthorizationName authorizationsTwo '''' ''ctx'' ''srv'' = Inr ''srv'' \<and>
   defaultClusterName clustersProdOther ''prod'' '''' ''ctx'' = Inr ''prod'' \<and>
   ''other'' \<in> set (map fst clustersProdOther) \<and>
   defaultClusterName clustersProdOther ''prod'' '''' ''other'' = Inr ''other'' \<and>
   defaultServerName [] '''' ''ctx'' = Inl (NoDefaultServer ''ctx'')"
proof -
  have m: "''other'' \<in> set (map fst clustersProdOther)"
    by (simp add: clustersProdOther_def)
  have 1: "impliedName (map fst authorizationsTwo) ''ctx'' (Some ''srv'') ''default'' = Some ''srv''"
    by (simp add: impliedName_def authorizationsTwo_def)
  have 2: "impliedName (map fst clustersProdOther) ''ctx'' None ''prod'' = Some ''prod''"
    by (simp add: impliedName_def clustersProdOther_def)
  have 3: "impliedName (map fst []) ''ctx'' None ''default'' = None"
    by (simp add: impliedName_def)
  note a = implied_name_strategies [of "[]" "''ctx''" authorizationsTwo "''srv''"
      clustersProdOther "''prod''" "[]"]
  note b = implied_name_strategies [of "[]" "''other''" authorizationsTwo "''srv''"
      clustersProdOther "''prod''" "[]"]
  have r1: "defaultAuthorizationName authorizationsTwo '''' ''ctx'' ''srv'' = Inr ''srv''"
    using a unfolding 1 by (simp add: resolved_def)
  have r2: "defaultClusterName clustersProdOther ''prod'' '''' ''ctx'' = Inr ''prod''"
    using a unfolding 2 by (simp add: resolved_def)
  have r3: "defaultClusterName clustersProdOther ''prod'' '''' ''other'' = Inr ''other''"
    using b m by blast
  have r4: "defaultServerName [] '''' ''ctx'' = Inl (NoDefaultServer ''ctx'')"
    using a unfolding 3 by (simp add: resolved_def)
  from r1 r2 m r3 r4 show ?thesis by blast
qed

text \<open>
  Claim C1, as stated, fails for clusters: with the discovered cluster name \<open>prod\<close>
  and the clusters \<open>default\<close> and \<open>other\<close>, the literal \<open>default\<close> is not
  looked for and the resolution fails; with the clusters \<open>prod\<close> and \<open>other\<close> it
  succeeds with \<open>prod\<close>, where the fallback to the literal \<open>default\<close> would fail.
\<close>

theorem implied_name_default_literal_counterexample:
  "impliedNameSpec (map fst clustersDefaultOther) ''ctx'' None = Some ''default'' \<and>
   defaultClusterName clustersDefaultOther ''prod'' '''' ''ctx'' = Inl (NoDefaultCluster ''ctx'') \<and>
   impliedNameSpec (map fst clustersProdOther) ''ctx'' None = None \<and>
   defaultClusterName clustersProdOther ''prod'' '''' ''ctx'' = Inr ''prod''"
  by (simp add: impliedNameSpec_def impliedName_def defaultClusterName_def findCluster_def
      clustersDefaultOther_def clustersProdOther_def defaultString_def)

lemma defaultString_idem: "defaultString (defaultString s v) v = defaultString s v"
  by (simp add: defaultString_def)

lemma keepsString_default: "keepsString s (defaultString s v)"
  by (simp add: keepsString_def defaultString_def)

lemma keepsString_refl: "keepsString s s"
  by (simp add: keepsString_def)

lemma keepsString_trans: "keepsString a b \<Longrightarrow> keepsString b c \<Longrightarrow> keepsString a c"
  by (auto simp: keepsString_def)

lemma keepsServer_refl: "keepsServer s s"
  by (simp add: keepsServer_def keepsString_refl)

lemma keepsServer_trans: "keepsServer a b \<Longrightarrow> keepsServer b c \<Longrightarrow> keepsServer a c"
  unfolding keepsServer_def by (blast intro: keepsString_trans)

lemma keepsCluster_refl: "keepsCluster s s"
  by (simp add: keepsCluster_def keepsString_refl)

lemma keepsCluster_trans: "keepsCluster a b \<Longrightarrow> keepsCluster b c \<Longrightarrow> keepsCluster a c"
  unfolding keepsCluster_def by (blast intro: keepsString_trans)

lemma keepsController_refl: "keepsController s s"
  by (simp add: keepsController_def keepsString_refl)

lemma keepsController_trans:
  "keepsController a b \<Longrightarrow> keepsController b c \<Longrightarrow> keepsController a c"
  unfolding keepsController_def by (metis keepsString_trans)

lemma keepsContext_refl: "keepsContext s s"
  by (simp add: keepsContext_def keepsString_refl)

lemma keepsContext_trans: "keepsContext a b \<Longrightarrow> keepsContext b c \<Longrightarrow> keepsContext a c"
  unfolding keepsContext_def by (blast intro: keepsString_trans)

lemma keepsNamed_refl: "(\<And>x. K x x) \<Longrightarrow> keepsNamed K l l"
  by (simp add: keepsNamed_def list_all2_refl)

lemma keepsNamed_trans:
  assumes "\<And>x y z. K x y \<Longrightarrow> K y z \<Longrightarrow> K x z"
    and "keepsNamed K a b" and "keepsNamed K b c"
  shows "keepsNamed K a c"
proof (cases "a = []")
  case True
  then show ?thesis by (simp add: keepsNamed_def)
next
  case False
  with assms(2) have ab: "list_all2 (\<lambda>a b. fst b = fst a \<and> K (snd a) (snd b)) a b"
    by (simp add: keepsNamed_def)
  with False have "b \<noteq> []" by auto
  with assms(3) have bc: "list_all2 (\<lambda>a b. fst b = fst a \<and> K (snd a) (snd b)) b c"
    by (simp add: keepsNamed_def)
  have "list_all2 (\<lambda>a b. fst b = fst a \<and> K (snd a) (snd b)) a c"
    using ab bc by (rule list_all2_trans [rotated]) (auto intro: assms(1))
  then show ?thesis by (simp add: keepsNamed_def)
qed

lemma keepsConfig_refl: "keepsConfig c c"
  by (simp add: keepsConfig_def keepsNamed_refl keepsServer_refl keepsCluster_refl
      keepsController_refl keepsContext_refl keepsString_refl)

lemma keepsConfig_trans:
  assumes "keepsConfig a b" and "keepsConfig b c"
  shows "keepsConfig a c"
proof -
  have "keepsNamed keepsServer (Servers a) (Servers c)"
    using assms by (auto simp: keepsConfig_def intro: keepsNamed_trans [OF keepsServer_trans])
  moreover have "keepsNamed (=) (Authorizations a) (Authorizations c)"
    using assms by (auto simp: keepsConfig_def intro: keepsNamed_trans [where K = "(=)"])
  moreover have "keepsNamed keepsCluster (Clusters a) (Clusters c)"
    using assms by (auto simp: keepsConfig_def intro: keepsNamed_trans [OF keepsCluster_trans])
  moreover have "keepsNamed keepsController (Controllers a) (Controllers c)"
    using assms
    by (auto simp: keepsConfig_def intro: keepsNamed_trans [OF keepsController_trans])
  moreover have "keepsNamed keepsContext (Contexts a) (Contexts c)"
    using assms by (auto simp: keepsConfig_def intro: keepsNamed_trans [OF keepsContext_trans])
  moreover have "keepsString (CurrentContext a) (CurrentContext c)"
    using assms by (auto simp: keepsConfig_def intro: keepsString_trans)
  moreover have "Environment c = Environment a"
    using assms by (simp add: keepsConfig_def)
  ultimately show ?thesis by (simp add: keepsConfig_def)
qed

lemma forEachNamed_names: "forEachNamed f xs = Inr ys \<Longrightarrow> map fst ys = map fst xs"
  by (induction xs arbitrary: ys) (auto split: sum.splits)

lemma forEachNamed_keeps:
  assumes "\<And>n x y. f n x = Inr y \<Longrightarrow> K x y"
  shows "forEachNamed f xs = Inr ys \<Longrightarrow>
    list_all2 (\<lambda>a b. fst b = fst a \<and> K (snd a) (snd b)) xs ys"
  using assms by (induction xs arbitrary: ys) (auto split: sum.splits)

lemma forEachNamed_again:
  assumes "\<And>n x y. f n x = Inr y \<Longrightarrow> g n y = Inr y"
  shows "forEachNamed f xs = Inr ys \<Longrightarrow> forEachNamed g ys = Inr ys"
  by (induction xs arbitrary: ys) (auto split: sum.splits simp: assms)

lemma forEachNamed_keepsNamed:
  assumes "\<And>n x y. f n x = Inr y \<Longrightarrow> K x y" and "forEachNamed f xs = Inr ys"
  shows "keepsNamed K xs ys"
  using forEachNamed_keeps [of f K xs ys] assms by (simp add: keepsNamed_def)

lemma defaultServerName_rule:
  "defaultServerName servers s name =
     (case impliedName (map fst servers) name None ''default'' of
        Some v \<Rightarrow> Inr (defaultString s v)
      | None \<Rightarrow> if s \<noteq> '''' then Inr s else Inl (NoDefaultServer name))"
  by (cases "length servers = 1")
     (simp_all add: impliedName_single impliedName_many defaultServerName_def find_None)

lemma defaultAuthorizationName_rule:
  "defaultAuthorizationName authorizations s name server =
     (case impliedName (map fst authorizations) name (Some server) ''default'' of
        Some v \<Rightarrow> Inr (defaultString s v)
      | None \<Rightarrow> if s \<noteq> '''' then Inr s else Inl (NoDefaultAuthorization name))"
  by (cases "length authorizations = 1")
     (simp_all add: impliedName_single impliedName_many defaultAuthorizationName_def find_None)

lemma defaultClusterName_rule:
  "defaultClusterName clusters clusterName s name =
     (case impliedName (map fst clusters) name None clusterName of
        Some v \<Rightarrow> Inr (defaultString s v)
      | None \<Rightarrow> if s \<noteq> '''' then Inr s else Inl (NoDefaultCluster name))"
  by (cases "length clusters = 1")
     (simp_all add: impliedName_single impliedName_many defaultClusterName_def find_None)

lemma defaultControllerName_rule:
  "defaultControllerName controllers clusterName s name =
     (case impliedName (map fst controllers) name None clusterName of
        Some v \<Rightarrow> Inr (defaultString s v)
      | None \<Rightarrow> if s \<noteq> '''' then Inr s else Inl (NoDefaultController name))"
  by (cases "length controllers = 1")
     (simp_all add: impliedName_single impliedName_many defaultControllerName_def find_None)

lemma defaultContextName_rule:
  "defaultContextName contexts s =
     (case (if length contexts = 1 then Some (map fst contexts ! 0)
            else if ''default'' \<in> set (map fst contexts) then Some ''default'' else None) of
        Some v \<Rightarrow> Inr (defaultString s v)
      | None \<Rightarrow> if s \<noteq> '''' then Inr s else Inl NoDefaultContext)"
  by (cases contexts) (auto simp: defaultContextName_def find_None)

lemma name_rule_again:
  assumes "(case r of Some v \<Rightarrow> Inr (defaultString s v)
            | None \<Rightarrow> if s \<noteq> '''' then Inr s else Inl e) = Inr s'"
  shows "keepsString s s' \<and>
    (case r of Some v \<Rightarrow> Inr (defaultString s' v)
     | None \<Rightarrow> if s' \<noteq> '''' then Inr s' else Inl e) = Inr s'"
  using assms
  by (cases r) (auto simp: keepsString_def defaultString_def split: if_splits)

lemma defaultServerName_again:
  "defaultServerName servers s name = Inr s' \<Longrightarrow>
     keepsString s s' \<and> defaultServerName servers s' name = Inr s'"
  unfolding defaultServerName_rule by (rule name_rule_again)

lemma defaultAuthorizationName_again:
  "defaultAuthorizationName authorizations s name server = Inr s' \<Longrightarrow>
     keepsString s s' \<and> defaultAuthorizationName authorizations s' name server = Inr s'"
  unfolding defaultAuthorizationName_rule by (rule name_rule_again)

lemma defaultClusterName_again:
  "defaultClusterName clusters clusterName s name = Inr s' \<Longrightarrow>
     keepsString s s' \<and> defaultClusterName clusters clusterName s' name = Inr s'"
  unfolding defaultClusterName_rule by (rule name_rule_again)

lemma defaultControllerName_again:
  "defaultControllerName controllers clusterName s name = Inr s' \<Longrightarrow>
     keepsString s s' \<and> defaultControllerName controllers clusterName s' name = Inr s'"
  unfolding defaultControllerName_rule by (rule name_rule_again)

lemma defaultContextName_again:
  "defaultContextName contexts s = Inr s' \<Longrightarrow>
     keepsString s s' \<and> defaultContextName contexts s' = Inr s'"
  unfolding defaultContextName_rule by (rule name_rule_again)

lemma defaultControllerName_names:
  "map fst controllers' = map fst controllers \<Longrightarrow>
     defaultControllerName controllers' clusterName s name =
     defaultControllerName controllers clusterName s name"
  by (simp add: defaultControllerName_rule)

lemma defaultContextName_names:
  "map fst contexts' = map fst contexts \<Longrightarrow>
     defaultContextName contexts' s = defaultContextName contexts s"
  using map_eq_imp_length_eq [of fst contexts' fst contexts]
  by (simp add: defaultContextName_rule)

lemma defaultServerRoots_again:
  assumes "defaultServerRoots env srv = Inr s1"
  shows "keepsServer srv s1 \<and> defaultServerRoots env s1 = Inr s1"
proof -
  have k: "keepsServer srv s1"
    using assms
    by (auto simp: defaultServerRoots_def keepsServer_def keepsString_default keepsString_refl
        split: if_splits)
  have "defaultServerRoots env s1 = Inr s1"
    using assms
    by (auto simp: defaultServerRoots_def defaultString_idem split: if_splits)
  with k show ?thesis by simp
qed

lemma defaultServerEndpoints_again:
  assumes "defaultServerEndpoints lib s1 = Inr s2"
  shows "keepsServer s1 s2" and "defaultServerEndpoints lib s2 = Inr s2"
    and "Identifier s2 = Identifier s1"
    and "Issuer (serverAuthorization s2) = Issuer (serverAuthorization s1)"
    and "BaseURL (Application s2) = BaseURL (Application s1)"
proof -
  obtain api where api: "IssuerURL lib (Identifier s1) = Inr api"
    using assms by (auto simp: defaultServerEndpoints_def split: sum.splits)
  obtain issuer where issuer: "IssuerURL lib (Issuer (serverAuthorization s1)) = Inr issuer"
    using assms by (auto simp: defaultServerEndpoints_def split: sum.splits)
  define accounts where
    "accounts = defaultString (AccountsEndpoint (API s1)) (api @ ''/v1/accounts/'')"
  define registration where
    "registration = (if \<not> urlParses lib accounts then api @ ''/v1/accounts/clients''
             else urlJoinPath lib accounts ''clients'')"
  define registry where
    "registry = (if \<not> urlParses lib accounts then api @ ''/v1/accounts/robots''
             else urlJoinPath lib accounts ''robots'')"
  note unf = defaultServerEndpoints_def api issuer sum.case Let_def
    accounts_def [symmetric] registration_def [symmetric] registry_def [symmetric]
  from assms show id: "Identifier s2 = Identifier s1"
    unfolding unf by auto
  from assms have app: "Application s2 = (Application s1)\<lparr>
          AuthSuccessEndpoint := defaultString (AuthSuccessEndpoint (Application s1))
            ''https://docs.stormforge.io/api/auth_success/''\<rparr>"
    unfolding unf by auto
  from assms have ap: "API s2 = \<lparr>
          ApplicationsEndpoint =
            defaultString (ApplicationsEndpoint (API s1)) (api @ ''/v2/applications/''),
          ExperimentsEndpoint =
            defaultString (ExperimentsEndpoint (API s1)) (api @ ''/v1/experiments/''),
          AccountsEndpoint = accounts,
          PerformanceTokenEndpoint = defaultString (PerformanceTokenEndpoint (API s1))
            ''https://app.stormforger.com/optimize/oauth/tokens'',
          RegistryRegistrationEndpoint =
            defaultString (RegistryRegistrationEndpoint (API s1)) registry\<rparr>"
    unfolding unf by auto
  from assms have au: "serverAuthorization s2 = \<lparr>
          Issuer = Issuer (serverAuthorization s1),
          AuthorizationEndpoint =
            defaultString (AuthorizationEndpoint (serverAuthorization s1))
              (issuer @ ''/authorize''),
          TokenEndpoint =
            defaultString (TokenEndpoint (serverAuthorization s1)) (issuer @ ''/oauth/token''),
          RevocationEndpoint =
            defaultString (RevocationEndpoint (serverAuthorization s1))
              (issuer @ ''/oauth/revoke''),
          RegistrationEndpoint =
            defaultString (RegistrationEndpoint (serverAuthorization s1)) registration,
          DeviceAuthorizationEndpoint =
            defaultString (DeviceAuthorizationEndpoint (serverAuthorization s1))
              (issuer @ ''/oauth/device/code''),
          JSONWebKeySetURI =
            defaultString (JSONWebKeySetURI (serverAuthorization s1))
              (WellKnownURI lib issuer ''jwks.json'')\<rparr>"
    unfolding unf by auto
  show iss: "Issuer (serverAuthorization s2) = Issuer (serverAuthorization s1)"
    by (simp add: au)
  show "BaseURL (Application s2) = BaseURL (Application s1)"
    by (simp add: app)
  show "keepsServer s1 s2"
    unfolding keepsServer_def id ap au app accounts_def
    by (simp add: keepsString_default keepsString_refl)
  have acc: "defaultString (AccountsEndpoint (API s2)) (api @ ''/v1/accounts/'') = accounts"
    by (simp add: ap) (simp add: accounts_def defaultString_idem)
  have api2: "IssuerURL lib (Identifier s2) = Inr api" by (simp add: id api)
  have iss2: "IssuerURL lib (Issuer (serverAuthorization s2)) = Inr issuer"
    by (simp add: iss issuer)
  have A: "\<lparr>ApplicationsEndpoint =
            defaultString (ApplicationsEndpoint (API s2)) (api @ ''/v2/applications/''),
          ExperimentsEndpoint =
            defaultString (ExperimentsEndpoint (API s2)) (api @ ''/v1/experiments/''),
          AccountsEndpoint = accounts,
          PerformanceTokenEndpoint = defaultString (PerformanceTokenEndpoint (API s2))
            ''https://app.stormforger.com/optimize/oauth/tokens'',
          RegistryRegistrationEndpoint =
            defaultString (RegistryRegistrationEndpoint (API s2)) registry\<rparr> = API s2"
    by (simp add: ap defaultString_idem)
  have B: "\<lparr>Issuer = Issuer (serverAuthorization s2),
          AuthorizationEndpoint =
            defaultString (AuthorizationEndpoint (serverAuthorization s2))
              (issuer @ ''/authorize''),
          TokenEndpoint =
            defaultString (TokenEndpoint (serverAuthorization s2)) (issuer @ ''/oauth/token''),
          RevocationEndpoint =
            defaultString (RevocationEndpoint (serverAuthorization s2))
              (issuer @ ''/oauth/revoke''),
          RegistrationEndpoint =
            defaultString (RegistrationEndpoint (serverAuthorization s2)) registration,
          DeviceAuthorizationEndpoint =
            defaultString (DeviceAuthorizationEndpoint (serverAuthorization s2))
              (issuer @ ''/oauth/device/code''),
          JSONWebKeySetURI =
            defaultString (JSONWebKeySetURI (serverAuthorization s2))
              (WellKnownURI lib issuer ''jwks.json'')\<rparr> = serverAuthorization s2"
    by (simp add: au defaultString_idem)
  have C: "(Application s2)\<lparr>
          AuthSuccessEndpoint := defaultString (AuthSuccessEndpoint (Application s2))
            ''https://docs.stormforge.io/api/auth_success/''\<rparr> = Application s2"
    by (simp add: app defaultString_idem)
  show "defaultServerEndpoints lib s2 = Inr s2"
    unfolding defaultServerEndpoints_def api2 iss2 sum.case Let_def acc
      registration_def [symmetric] registry_def [symmetric] A B C
    by simp
qed

lemma defaultServerRoots_after_endpoints:
  assumes "defaultServerRoots env s1 = Inr s1" and "Identifier s2 = Identifier s1"
    and "Issuer (serverAuthorization s2) = Issuer (serverAuthorization s1)"
    and "BaseURL (Application s2) = BaseURL (Application s1)"
  shows "defaultServerRoots env s2 = Inr s2"
proof -
  have d: "Identifier s1 \<noteq> ''''" "Issuer (serverAuthorization s1) \<noteq> ''''"
    "BaseURL (Application s1) \<noteq> ''''"
    and e: "env = environmentProduction \<or> env = environmentStaging \<or>
      env = environmentDevelopment"
  proof -
    have "(Identifier s1 \<noteq> '''' \<and> Issuer (serverAuthorization s1) \<noteq> '''' \<and>
      BaseURL (Application s1) \<noteq> '''') \<and> (env = environmentProduction \<or>
      env = environmentStaging \<or> env = environmentDevelopment)"
      using assms(1) [symmetric]
      apply (simp add: defaultServerRoots_def split: if_splits)
        apply (drule arg_cong [where f = "\<lambda>s. (Identifier s, Issuer (serverAuthorization s),
          BaseURL (Application s))"], simp add: defaultString_def split: if_splits)+
      done
    then show "Identifier s1 \<noteq> ''''" "Issuer (serverAuthorization s1) \<noteq> ''''"
      "BaseURL (Application s1) \<noteq> ''''" "env = environmentProduction \<or>
      env = environmentStaging \<or> env = environmentDevelopment" by simp_all
  qed
  from e d show ?thesis
    by (auto simp: defaultServerRoots_def defaultString_def assms(2,3,4))
qed

lemma serverDefaults_again:
  assumes "serverDefaults lib env n srv = Inr s2"
  shows "keepsServer srv s2 \<and> serverDefaults lib env n s2 = Inr s2"
proof -
  obtain s1 where r: "defaultServerRoots env srv = Inr s1"
    and e: "defaultServerEndpoints lib s1 = Inr s2"
    using assms by (auto simp: serverDefaults_def split: sum.splits)
  note r' = defaultServerRoots_again [OF r]
  note e' = defaultServerEndpoints_again [OF e]
  have "defaultServerRoots env s2 = Inr s2"
    using r' e'(3,4,5) by (blast intro: defaultServerRoots_after_endpoints)
  then have "serverDefaults lib env n s2 = Inr s2"
    by (simp add: serverDefaults_def e'(2))
  moreover have "keepsServer srv s2"
    using r' e'(1) by (blast intro: keepsServer_trans)
  ultimately show ?thesis by simp
qed

lemma clusterDefaults_again:
  assumes "clusterDefaults controllers clusterName n cstr = Inr c2"
    and "map fst controllers' = map fst controllers"
  shows "keepsCluster cstr c2 \<and> clusterDefaults controllers' clusterName n c2 = Inr c2"
proof -
  obtain c where c: "defaultControllerName controllers clusterName (clusterController cstr) n
      = Inr c"
    and c2: "c2 = cstr\<lparr>Bin := defaultString (Bin cstr) ''kubectl'', clusterController := c\<rparr>"
    using assms(1) by (auto simp: clusterDefaults_def Let_def split: sum.splits)
  note again = defaultControllerName_again [OF c]
  have "defaultControllerName controllers' clusterName c n = Inr c"
    using again defaultControllerName_names [OF assms(2)] by simp
  then have "clusterDefaults controllers' clusterName n c2 = Inr c2"
    by (simp add: clusterDefaults_def c2 defaultString_idem)
  moreover have "keepsCluster cstr c2"
    using again by (simp add: keepsCluster_def c2 keepsString_refl keepsString_default)
  ultimately show ?thesis by simp
qed

lemma controllerDefaults_again:
  assumes "controllerDefaults n ctrl = Inr c2"
  shows "keepsController ctrl c2 \<and> controllerDefaults n c2 = Inr c2"
  using assms
  by (auto simp: controllerDefaults_def keepsController_def keepsString_refl
      keepsString_default defaultString_idem)

lemma contextDefaults_again:
  assumes "contextDefaults cfg clusterName n ctx = Inr c2"
  shows "keepsContext ctx c2 \<and> contextDefaults cfg clusterName n c2 = Inr c2"
proof -
  obtain s a c where s: "defaultServerName (Servers cfg) (ctxServer ctx) n = Inr s"
    and a: "defaultAuthorizationName (Authorizations cfg) (ctxAuthorization ctx) n s = Inr a"
    and c: "defaultClusterName (Clusters cfg) clusterName (ctxCluster ctx) n = Inr c"
    and c2: "c2 = \<lparr>ctxServer = s, ctxAuthorization = a, ctxCluster = c\<rparr>"
    using assms by (auto simp: contextDefaults_def split: sum.splits)
  note s' = defaultServerName_again [OF s]
  note a' = defaultAuthorizationName_again [OF a]
  note c' = defaultClusterName_again [OF c]
  have "contextDefaults cfg clusterName n c2 = Inr c2"
    using s' a' c' by (simp add: contextDefaults_def c2)
  moreover have "keepsContext ctx c2"
    using s' a' c' by (simp add: keepsContext_def c2)
  ultimately show ?thesis by simp
qed

lemma contextDefaults_frame:
  assumes "Servers c' = Servers c" and "Authorizations c' = Authorizations c"
    and "Clusters c' = Clusters c"
  shows "contextDefaults c' = contextDefaults c"
  by (intro ext) (simp only: contextDefaults_def assms)

lemmas keeps_refl =
  keepsNamed_refl keepsServer_refl keepsCluster_refl keepsController_refl keepsContext_refl
  keepsString_refl

lemma addDefaultObjects_keeps: "keepsConfig cfg (addDefaultObjects clusterName cfg)"
  by (simp add: keepsConfig_def addDefaultObjects_def keeps_refl) (simp add: keepsNamed_def)

lemma addDefaultObjects_nonempty:
  "Servers (addDefaultObjects clusterName cfg) \<noteq> []"
  "Authorizations (addDefaultObjects clusterName cfg) \<noteq> []"
  "Clusters (addDefaultObjects clusterName cfg) \<noteq> []"
  "Controllers (addDefaultObjects clusterName cfg) \<noteq> []"
  "Contexts (addDefaultObjects clusterName cfg) \<noteq> []"
  by (simp_all add: addDefaultObjects_def)

lemma addDefaultObjects_fixed:
  assumes "Servers c \<noteq> []" "Authorizations c \<noteq> []" "Clusters c \<noteq> []"
    "Controllers c \<noteq> []" "Contexts c \<noteq> []"
  shows "addDefaultObjects clusterName c = c"
  using assms by (simp add: addDefaultObjects_def)

lemma applyServerDefaults_result:
  assumes "applyServerDefaults lib env c = Inr c1"
  obtains S where "forEachNamed (serverDefaults lib env) (Servers c) = Inr S"
    and "c1 = c\<lparr>Servers := S\<rparr>"
  using assms by (auto simp: applyServerDefaults_def split: sum.splits)

lemma applyClusterDefaults_result:
  assumes "applyClusterDefaults clusterName c = Inr c1"
  obtains K where
    "forEachNamed (clusterDefaults (Controllers c) clusterName) (Clusters c) = Inr K"
    and "c1 = c\<lparr>Clusters := K\<rparr>"
  using assms by (auto simp: applyClusterDefaults_def split: sum.splits)

lemma applyControllerDefaults_result:
  assumes "applyControllerDefaults c = Inr c1"
  obtains R where "forEachNamed controllerDefaults (Controllers c) = Inr R"
    and "c1 = c\<lparr>Controllers := R\<rparr>"
  using assms by (auto simp: applyControllerDefaults_def split: sum.splits)

lemma applyContextDefaults_result:
  assumes "applyContextDefaults clusterName c = Inr c1"
  obtains X cur where
    "forEachNamed (contextDefaults c clusterName) (Contexts c) = Inr X"
    and "defaultContextName X (CurrentContext c) = Inr cur"
    and "c1 = c\<lparr>Contexts := X, CurrentContext := cur\<rparr>"
  using assms by (auto simp: applyContextDefaults_def split: sum.splits)

lemma applyServerDefaults_keeps:
  assumes "applyServerDefaults lib env c = Inr c1"
  shows "keepsConfig c c1"
proof -
  from assms obtain S where S: "forEachNamed (serverDefaults lib env) (Servers c) = Inr S"
    and c1: "c1 = c\<lparr>Servers := S\<rparr>" by (rule applyServerDefaults_result)
  have "keepsNamed keepsServer (Servers c) S"
    using serverDefaults_again S by (blast intro: forEachNamed_keepsNamed)
  then show ?thesis by (simp add: keepsConfig_def c1 keeps_refl)
qed

lemma applyClusterDefaults_keeps:
  assumes "applyClusterDefaults clusterName c = Inr c1"
  shows "keepsConfig c c1"
proof -
  from assms obtain K where
    K: "forEachNamed (clusterDefaults (Controllers c) clusterName) (Clusters c) = Inr K"
    and c1: "c1 = c\<lparr>Clusters := K\<rparr>" by (rule applyClusterDefaults_result)
  have "keepsNamed keepsCluster (Clusters c) K"
    using clusterDefaults_again [OF _ refl] K by (blast intro: forEachNamed_keepsNamed)
  then show ?thesis by (simp add: keepsConfig_def c1 keeps_refl)
qed

lemma applyControllerDefaults_keeps:
  assumes "applyControllerDefaults c = Inr c1"
  shows "keepsConfig c c1"
proof -
  from assms obtain R where R: "forEachNamed controllerDefaults (Controllers c) = Inr R"
    and c1: "c1 = c\<lparr>Controllers := R\<rparr>" by (rule applyControllerDefaults_result)
  have "keepsNamed keepsController (Controllers c) R"
    using controllerDefaults_again R by (blast intro: forEachNamed_keepsNamed)
  then show ?thesis by (simp add: keepsConfig_def c1 keeps_refl)
qed

lemma applyContextDefaults_keeps:
  assumes "applyContextDefaults clusterName c = Inr c1"
  shows "keepsConfig c c1"
proof -
  from assms obtain X cur where
    X: "forEachNamed (contextDefaults c clusterName) (Contexts c) = Inr X"
    and cur: "defaultContextName X (CurrentContext c) = Inr cur"
    and c1: "c1 = c\<lparr>Contexts := X, CurrentContext := cur\<rparr>"
    by (rule applyContextDefaults_result)
  have "keepsNamed keepsContext (Contexts c) X"
    using contextDefaults_again X by (blast intro: forEachNamed_keepsNamed)
  moreover have "keepsString (CurrentContext c) cur"
    using defaultContextName_again [OF cur] by simp
  ultimately show ?thesis by (simp add: keepsConfig_def c1 keeps_refl)
qed

lemma names_nonempty: "map fst ys = map fst xs \<Longrightarrow> xs \<noteq> [] \<Longrightarrow> ys \<noteq> []"
  by auto

lemma defaultLoader_again:
  assumes "defaultLoader lib env clusterName cfg = Inr cfg'"
  shows "defaultLoader lib env clusterName cfg' = Inr cfg'"
proof -
  define c0 where "c0 = addDefaultObjects clusterName cfg"
  from assms obtain c1 c2 c3 where
    s1: "applyServerDefaults lib env c0 = Inr c1" and
    s2: "applyClusterDefaults clusterName c1 = Inr c2" and
    s3: "applyControllerDefaults c2 = Inr c3" and
    s4: "applyContextDefaults clusterName c3 = Inr cfg'"
    by (auto simp: defaultLoader_def c0_def split: sum.splits)
  from s1 obtain S where S: "forEachNamed (serverDefaults lib env) (Servers c0) = Inr S"
    and c1: "c1 = c0\<lparr>Servers := S\<rparr>" by (rule applyServerDefaults_result)
  from s2 obtain K where
    K: "forEachNamed (clusterDefaults (Controllers c1) clusterName) (Clusters c1) = Inr K"
    and c2: "c2 = c1\<lparr>Clusters := K\<rparr>" by (rule applyClusterDefaults_result)
  from s3 obtain R where R: "forEachNamed controllerDefaults (Controllers c2) = Inr R"
    and c3: "c3 = c2\<lparr>Controllers := R\<rparr>" by (rule applyControllerDefaults_result)
  from s4 obtain X cur where
    X: "forEachNamed (contextDefaults c3 clusterName) (Contexts c3) = Inr X"
    and cur: "defaultContextName X (CurrentContext c3) = Inr cur"
    and c4: "cfg' = c3\<lparr>Contexts := X, CurrentContext := cur\<rparr>"
    by (rule applyContextDefaults_result)
  have fields: "Servers cfg' = S" "Authorizations cfg' = Authorizations c0" "Clusters cfg' = K"
    "Controllers cfg' = R" "Contexts cfg' = X" "CurrentContext cfg' = cur"
    by (simp_all add: c4 c3 c2 c1)
  have ne: "Servers c0 \<noteq> []" "Authorizations c0 \<noteq> []" "Clusters c0 \<noteq> []"
    "Controllers c0 \<noteq> []" "Contexts c0 \<noteq> []"
    unfolding c0_def by (rule addDefaultObjects_nonempty)+
  have nS: "map fst S = map fst (Servers c0)" using S by (rule forEachNamed_names)
  have nK: "map fst K = map fst (Clusters c0)"
    using forEachNamed_names [OF K] by (simp add: c1)
  have nR: "map fst R = map fst (Controllers c0)"
    using forEachNamed_names [OF R] by (simp add: c2 c1)
  have nX: "map fst X = map fst (Contexts c0)"
    using forEachNamed_names [OF X] by (simp add: c3 c2 c1)
  have a0: "addDefaultObjects clusterName cfg' = cfg'"
    by (rule addDefaultObjects_fixed)
       (simp_all add: fields ne names_nonempty [OF nS] names_nonempty [OF nK]
         names_nonempty [OF nR] names_nonempty [OF nX])
  have "forEachNamed (serverDefaults lib env) S = Inr S"
    using serverDefaults_again S by (blast intro: forEachNamed_again)
  then have a1: "applyServerDefaults lib env cfg' = Inr cfg'"
    by (simp add: applyServerDefaults_def fields)
  have "forEachNamed (clusterDefaults R clusterName) K = Inr K"
  proof (rule forEachNamed_again [OF _ K])
    fix n x y
    assume "clusterDefaults (Controllers c1) clusterName n x = Inr y"
    moreover have "map fst R = map fst (Controllers c1)" using nR by (simp add: c1)
    ultimately show "clusterDefaults R clusterName n y = Inr y"
      using clusterDefaults_again by blast
  qed
  then have a2: "applyClusterDefaults clusterName cfg' = Inr cfg'"
    by (simp add: applyClusterDefaults_def fields)
  have "forEachNamed controllerDefaults R = Inr R"
    using controllerDefaults_again R by (blast intro: forEachNamed_again)
  then have a3: "applyControllerDefaults cfg' = Inr cfg'"
    by (simp add: applyControllerDefaults_def fields)
  have fr: "contextDefaults cfg' = contextDefaults c3"
    by (rule contextDefaults_frame) (simp_all add: c4)
  have "forEachNamed (contextDefaults c3 clusterName) X = Inr X"
    using contextDefaults_again X by (blast intro: forEachNamed_again)
  moreover have "defaultContextName X cur = Inr cur"
    using defaultContextName_again [OF cur] by simp
  ultimately have a4: "applyContextDefaults clusterName cfg' = Inr cfg'"
    by (simp add: applyContextDefaults_def fields fr)
  show ?thesis by (simp add: defaultLoader_def a0 a1 a2 a3 a4)
qed

lemma defaultLoader_keeps:
  assumes "defaultLoader lib env clusterName cfg = Inr cfg'"
  shows "keepsConfig cfg cfg'"
proof -
  define c0 where "c0 = addDefaultObjects clusterName cfg"
  from assms obtain c1 c2 c3 where
    s1: "applyServerDefaults lib env c0 = Inr c1" and
    s2: "applyClusterDefaults clusterName c1 = Inr c2" and
    s3: "applyControllerDefaults c2 = Inr c3" and
    s4: "applyContextDefaults clusterName c3 = Inr cfg'"
    by (auto simp: defaultLoader_def c0_def split: sum.splits)
  have k0: "keepsConfig cfg c0" unfolding c0_def by (rule addDefaultObjects_keeps)
  have k1: "keepsConfig c0 c1" using s1 by (rule applyServerDefaults_keeps)
  have k2: "keepsConfig c1 c2" using s2 by (rule applyClusterDefaults_keeps)
  have k3: "keepsConfig c2 c3" using s3 by (rule applyControllerDefaults_keeps)
  have k4: "keepsConfig c3 cfg'" using s4 by (rule applyContextDefaults_keeps)
  from k0 k1 have "keepsConfig cfg c1" by (rule keepsConfig_trans)
  from this k2 have "keepsConfig cfg c2" by (rule keepsConfig_trans)
  from this k3 have "keepsConfig cfg c3" by (rule keepsConfig_trans)
  from this k4 show ?thesis by (rule keepsConfig_trans)
qed

text \<open>
  Claim C4. No step of the default resolution (seeding the empty lists, the server,
  cluster, controller and context defaults) overwrites a string that is not empty, or
  changes a list that is not empty other than by filling empty fields of its entries;
  and when the default resolution of a configuration succeeds, the whole resolution
  keeps every non-empty field, and a second resolution of the result, with the same
  environment, discovered cluster name and library, succeeds and returns the result
  unchanged.
\<close>

theorem default_resolution_keeps_and_repeats:
  "keepsConfig cfg (addDefaultObjects clusterName cfg) \<and>
   (\<forall>c. applyServerDefaults lib env cfg = Inr c \<longrightarrow> keepsConfig cfg c) \<and>
   (\<forall>c. applyClusterDefaults clusterName cfg = Inr c \<longrightarrow> keepsConfig cfg c) \<and>
   (\<forall>c. applyControllerDefaults cfg = Inr c \<longrightarrow> keepsConfig cfg c) \<and>
   (\<forall>c. applyContextDefaults clusterName cfg = Inr c \<longrightarrow> keepsConfig cfg c) \<and>
   (\<forall>cfg'. defaultLoader lib env clusterName cfg = Inr cfg' \<longrightarrow>
      keepsConfig cfg cfg' \<and> defaultLoader lib env clusterName cfg' = Inr cfg')"
proof (intro conjI allI impI)
  show "keepsConfig cfg (addDefaultObjects clusterName cfg)"
    by (rule addDefaultObjects_keeps)
  show "keepsConfig cfg c" if "applyServerDefaults lib env cfg = Inr c" for c
    using that by (rule applyServerDefaults_keeps)
  show "keepsConfig cfg c" if "applyClusterDefaults clusterName cfg = Inr c" for c
    using that by (rule applyClusterDefaults_keeps)
  show "keepsConfig cfg c" if "applyControllerDefaults cfg = Inr c" for c
    using that by (rule applyControllerDefaults_keeps)
  show "keepsConfig cfg c" if "applyContextDefaults clusterName cfg = Inr c" for c
    using that by (rule applyContextDefaults_keeps)
  show "keepsConfig cfg cfg'" if "defaultLoader lib env clusterName cfg = Inr cfg'" for cfg'
    using that by (rule defaultLoader_keeps)
  show "defaultLoader lib env clusterName cfg' = Inr cfg'"
    if "defaultLoader lib env clusterName cfg = Inr cfg'" for cfg'
    using that by (rule defaultLoader_again)
qed

lemma defaultLoader_serverX:
  "defaultLoader testLibrary ''staging'' ''default'' cfgServerX = Inr resolvedServerX"
  by (simp add: defaultLoader_def addDefaultObjects_def applyServerDefaults_def
      applyClusterDefaults_def applyControllerDefaults_def applyContextDefaults_def
      serverDefaults_def clusterDefaults_def controllerDefaults_def contextDefaults_def
      defaultServerRoots_def defaultServerEndpoints_def defaultServerName_def
      defaultAuthorizationName_def defaultClusterName_def defaultControllerName_def
      defaultContextName_def defaultString_def findServer_def findAuthorization_def
      findCluster_def findController_def findContext_def environmentProduction_def
      environmentStaging_def environmentDevelopment_def testLibrary_def cfgServerX_def
      resolvedServerX_def serverX_def emptyConfig_def emptyServer_def emptyAPIServer_def
      emptyAuthorizationServer_def emptyApplicationServer_def emptyAuthorization_def
      emptyCredential_def emptyCluster_def emptyController_def emptyContext_def Let_def)

text \<open>
  Claim C4, at a concrete input: one server \<open>a\<close> whose identifier is \<open>x\<close>, the
  environment \<open>staging\<close>, the discovered cluster name \<open>default\<close>. The resolution
  succeeds, the identifier is still \<open>x\<close>, and resolving the result again returns it.
\<close>

theorem default_resolution_keeps_and_repeats_witness:
  "defaultLoader testLibrary ''staging'' ''default'' cfgServerX = Inr resolvedServerX \<and>
   keepsConfig cfgServerX resolvedServerX \<and>
   defaultLoader testLibrary ''staging'' ''default'' resolvedServerX = Inr resolvedServerX \<and>
   Identifier (snd (Servers cfgServerX ! 0)) = ''x'' \<and>
   Identifier (snd (Servers resolvedServerX ! 0)) = ''x''"
proof -
  have "Identifier (snd (Servers cfgServerX ! 0)) = ''x''"
    by (simp add: cfgServerX_def serverX_def)
  moreover have "Identifier (snd (Servers resolvedServerX ! 0)) = ''x''"
    by (simp add: resolvedServerX_def)
  ultimately show ?thesis
    using defaultLoader_serverX
      default_resolution_keeps_and_repeats [of cfgServerX "''default''" testLibrary "''staging''"]
    by blast
qed

section \<open>Properties of the credential methods\<close>

lemma CredentialUnmarshalJSON_token:
  assumes "unmarshalStringMap data = Inr m" and "lookupString m ''access_token'' \<noteq> ''''"
  shows "CredentialUnmarshalJSON lib data c =
    Inr (c\<lparr>Token := Some (fst (unmarshalToken lib data emptyTokenCredential))\<rparr>)"
proof -
  from assms(2) have "m \<noteq> []" by (auto simp: lookupString_def)
  with assms show ?thesis
    by (cases "unmarshalToken lib data emptyTokenCredential")
       (auto simp: CredentialUnmarshalJSON_def split: option.splits)
qed

lemma CredentialUnmarshalJSON_client:
  assumes "unmarshalStringMap data = Inr m" and "lookupString m ''access_token'' = ''''"
    and "lookupString m ''client_id'' \<noteq> ''''"
  shows "CredentialUnmarshalJSON lib data c =
    Inr (c\<lparr>Client := Some (fst (unmarshalClient lib data emptyClientCredential))\<rparr>)"
proof -
  from assms(3) have "m \<noteq> []" by (auto simp: lookupString_def)
  with assms show ?thesis
    by (cases "unmarshalClient lib data emptyClientCredential")
       (auto simp: CredentialUnmarshalJSON_def split: option.splits)
qed

text \<open>
  Claim C10. When the document decodes into the string map and holds a non-empty
  \<open>access_token\<close> (or, without one, a non-empty \<open>client_id\<close>), and the decoding
  of the document into the chosen struct returns an error, \<open>UnmarshalJSON\<close> returns
  no error: the credential is left with the chosen variant set to the struct as the
  failed decoding left it. (The same equation holds when the inner decoding succeeds.)
\<close>

theorem unmarshal_discards_inner_error:
  assumes "unmarshalStringMap data = Inr m"
  shows "(lookupString m ''access_token'' \<noteq> '''' \<and>
          snd (unmarshalToken lib data emptyTokenCredential) = Some err \<longrightarrow>
            CredentialUnmarshalJSON lib data c =
              Inr (c\<lparr>Token := Some (fst (unmarshalToken lib data emptyTokenCredential))\<rparr>)) \<and>
         (lookupString m ''access_token'' = '''' \<and> lookupString m ''client_id'' \<noteq> '''' \<and>
          snd (unmarshalClient lib data emptyClientCredential) = Some err \<longrightarrow>
            CredentialUnmarshalJSON lib data c =
              Inr (c\<lparr>Client := Some (fst (unmarshalClient lib data emptyClientCredential))\<rparr>))"
  using CredentialUnmarshalJSON_token [OF assms] CredentialUnmarshalJSON_client [OF assms]
  by blast

lemma bad_expiry_map:
  "unmarshalStringMap jsonBadExpiry =
     Inr [(''access_token'', ''tok''), (''expiry'', ''garbage''), (''token_type'', ''bearer'')]"
  by (simp add: unmarshalStringMap_def jsonBadExpiry_def isStringOrNull_def stringOf_def
      buildIndex_def)

lemma bad_expiry_token:
  "unmarshalToken testJSON jsonBadExpiry emptyTokenCredential =
     (emptyTokenCredential\<lparr>AccessToken := ''tok''\<rparr>, Some (LibraryError ''parsing time''))"
  by (simp add: unmarshalToken_def jsonBadExpiry_def matchField_def setTokenField_def
      testJSON_def)

lemma bad_expiry_first_map:
  "unmarshalStringMap jsonBadExpiryFirst =
     Inr [(''expiry'', ''garbage''), (''access_token'', ''tok'')]"
  by (simp add: unmarshalStringMap_def jsonBadExpiryFirst_def isStringOrNull_def stringOf_def
      buildIndex_def)

lemma bad_expiry_first_token:
  "unmarshalToken testJSON jsonBadExpiryFirst emptyTokenCredential =
     (emptyTokenCredential, Some (LibraryError ''parsing time''))"
  by (simp add: unmarshalToken_def jsonBadExpiryFirst_def matchField_def setTokenField_def
      testJSON_def)

text \<open>
  Claim C10, at concrete inputs: an expiry that does not parse ends the decoding of the
  token; the members before it are stored (a token with the access token only), and when
  the expiry comes first the token installed is empty.
\<close>

theorem unmarshal_discards_inner_error_witness:
  "snd (unmarshalToken testJSON jsonBadExpiry emptyTokenCredential) =
     Some (LibraryError ''parsing time'') \<and>
   CredentialUnmarshalJSON testJSON jsonBadExpiry emptyCredential =
     Inr (emptyCredential\<lparr>Token := Some (emptyTokenCredential\<lparr>AccessToken := ''tok''\<rparr>)\<rparr>) \<and>
   snd (unmarshalToken testJSON jsonBadExpiryFirst emptyTokenCredential) =
     Some (LibraryError ''parsing time'') \<and>
   CredentialUnmarshalJSON testJSON jsonBadExpiryFirst emptyCredential =
     Inr (emptyCredential\<lparr>Token := Some emptyTokenCredential\<rparr>)"
proof -
  have a: "lookupString [(''access_token'', ''tok''), (''expiry'', ''garbage''),
      (''token_type'', ''bearer'')] ''access_token'' \<noteq> ''''"
    by (simp add: lookupString_def)
  have b: "lookupString [(''expiry'', ''garbage''), (''access_token'', ''tok'')]
      ''access_token'' \<noteq> ''''"
    by (simp add: lookupString_def)
  from unmarshal_discards_inner_error [OF bad_expiry_map, of testJSON
      "LibraryError ''parsing time''" emptyCredential] a
  have 1: "CredentialUnmarshalJSON testJSON jsonBadExpiry emptyCredential =
     Inr (emptyCredential\<lparr>Token := Some (emptyTokenCredential\<lparr>AccessToken := ''tok''\<rparr>)\<rparr>)"
    by (simp add: bad_expiry_token)
  from unmarshal_discards_inner_error [OF bad_expiry_first_map, of testJSON
      "LibraryError ''parsing time''" emptyCredential] b
  have 2: "CredentialUnmarshalJSON testJSON jsonBadExpiryFirst emptyCredential =
     Inr (emptyCredential\<lparr>Token := Some emptyTokenCredential\<rparr>)"
    by (simp add: bad_expiry_first_token)
  from 1 2 show ?thesis by (simp add: bad_expiry_token bad_expiry_first_token)
qed












section \<open>Repeating a merge\<close>

lemma mergeLoop_append:
  "mergeLoop f (xs @ ys) idx =
     (fst (mergeLoop f xs idx) @ fst (mergeLoop f ys (snd (mergeLoop f xs idx))),
      snd (mergeLoop f ys (snd (mergeLoop f xs idx))))"
  by (induction f xs idx rule: mergeLoop.induct) (auto simp: split_beta split: option.splits)

lemma mergeLoop_again:
  assumes "\<And>n v b. map_of idx n = Some v \<Longrightarrow> g n (f n b v) v = f n b v"
  shows "mergeLoop g (fst (mergeLoop f base idx)) idx = mergeLoop f base idx"
  using assms
proof (induction f base idx rule: mergeLoop.induct)
  case (1 f idx)
  then show ?case by simp
next
  case (2 f n b rest idx)
  show ?case
  proof (cases "map_of idx n")
    case None
    with 2(1) [OF None] 2(3) show ?thesis by (simp add: split_beta)
  next
    case (Some v)
    have "mergeLoop g (fst (mergeLoop f rest (AList.delete n idx))) (AList.delete n idx) =
        mergeLoop f rest (AList.delete n idx)"
    proof (rule 2(2) [OF Some])
      fix k w c assume "map_of (AList.delete n idx) k = Some w"
      then have "map_of idx k = Some w" by (auto simp: delete_conv' split: if_splits)
      then show "g k (f k c w) w = f k c w" by (rule 2(3))
    qed
    with Some 2(3) [OF Some] show ?thesis by (simp add: split_beta)
  qed
qed

lemma mergeLoop_self:
  assumes "distinct (map fst ys)"
    and "\<And>k v. (k, v) \<in> set ys \<Longrightarrow> map_of idx k = Some v \<and> g k v v = v"
  shows "fst (mergeLoop g ys idx) = ys"
  using assms
proof (induction g ys idx rule: mergeLoop.induct)
  case (1 f idx)
  then show ?case by simp
next
  case (2 f n b rest idx)
  from 2(4) [of n b] have h: "map_of idx n = Some b" "f n b b = b" by simp_all
  have "fst (mergeLoop f rest (AList.delete n idx)) = rest"
  proof (rule 2(2) [OF h(1)])
    show "distinct (map fst rest)" using 2(3) by simp
    fix k v assume kv: "(k, v) \<in> set rest"
    then have "k \<noteq> n" using 2(3) by (auto simp: image_iff)
    moreover from kv 2(4) [of k v] have "map_of idx k = Some v \<and> f k v v = v" by simp
    ultimately show "map_of (AList.delete n idx) k = Some v \<and> f k v v = v"
      by (simp add: delete_conv')
  qed
  with h show ?case by (simp add: split_beta)
qed

lemma mergeNamed_again:
  assumes ord: "map_iteration ord" and ord': "map_iteration ord'"
    and again: "\<And>n v b. map_of (rev overlay) n = Some v \<Longrightarrow> g n (f n b v) v = f n b v"
    and self: "\<And>n v. map_of (rev overlay) n = Some v \<Longrightarrow> g n v v = v"
  shows "mergeNamed ord' g (mergeNamed ord f base overlay) overlay =
         mergeNamed ord f base overlay"
proof -
  define idx where "idx = buildIndex overlay"
  define b' where "b' = fst (mergeLoop f base idx)"
  define i1 where "i1 = filter (\<lambda>p. fst p \<notin> fst ` set base) idx"
  define app where "app = rangeMap ord i1"
  have first: "mergeNamed ord f base overlay = b' @ app"
    by (simp add: mergeNamed_split b'_def app_def i1_def idx_def)
  have didx: "distinct (map fst idx)" unfolding idx_def by (rule distinct_buildIndex)
  have di1: "distinct (map fst i1)" unfolding i1_def using didx by (simp add: distinct_map_filter)
  have ms: "mset app = mset i1" unfolding app_def using ord di1 by (rule rangeMap_mset)
  have sapp: "set app = set i1" using ms by (rule mset_eq_setD)
  have dapp: "distinct (map fst app)"
  proof -
    have "mset (map fst app) = mset (map fst i1)" using ms by (metis mset_map)
    with di1 show ?thesis by (metis mset_eq_imp_distinct_iff)
  qed
  have midx: "map_of idx = map_of (rev overlay)" unfolding idx_def by (rule map_of_buildIndex)
  have l1: "mergeLoop g b' idx = (b', i1)"
  proof -
    have "mergeLoop g b' idx = mergeLoop f base idx"
      unfolding b'_def by (rule mergeLoop_again) (simp add: midx again)
    then show ?thesis by (simp add: b'_def i1_def mergeLoop_index prod_eq_iff)
  qed
  have in_i1: "map_of i1 k = Some v \<and> g k v v = v" if "(k, v) \<in> set app" for k v
  proof -
    from that sapp have m: "(k, v) \<in> set i1" by simp
    with di1 have 1: "map_of i1 k = Some v" by simp
    from m have "(k, v) \<in> set idx" by (simp add: i1_def)
    with didx have "map_of idx k = Some v" by simp
    then have "g k v v = v" by (simp add: midx self)
    with 1 show ?thesis by simp
  qed
  have l2: "mergeLoop g app i1 = (app, [])"
  proof -
    have "fst (mergeLoop g app i1) = app"
      using dapp in_i1 by (rule mergeLoop_self)
    moreover have "snd (mergeLoop g app i1) = []"
      unfolding mergeLoop_index sapp [symmetric] using sapp by (auto simp: filter_empty_conv)
    ultimately show ?thesis by (simp add: prod_eq_iff)
  qed
  have nil: "rangeMap ord' [] = []"
    using ord' by (simp add: rangeMap_def map_iteration_nil)
  have "mergeNamed ord' g (b' @ app) overlay = b' @ app"
    by (simp add: mergeNamed_def idx_def [symmetric] mergeLoop_append l1 l2 nil)
  then show ?thesis by (simp add: first)
qed

lemma mergeNamed_self:
  assumes "map_iteration ord" and "distinct (map fst xs)"
    and "\<And>k v. (k, v) \<in> set xs \<Longrightarrow> f k v v = v"
  shows "mergeNamed ord f xs xs = xs"
proof -
  have d: "distinct (map fst (rev xs))" using assms(2) by (simp add: rev_map [symmetric])
  have "fst (mergeLoop f xs (buildIndex xs)) = xs"
  proof (rule mergeLoop_self [OF assms(2)])
    fix k v assume kv: "(k, v) \<in> set xs"
    then have "map_of (rev xs) k = Some v" using d by (simp only: map_of_eq_Some_iff set_rev)
    with kv show "map_of (buildIndex xs) k = Some v \<and> f k v v = v"
      by (simp only: map_of_buildIndex assms(3) simp_thms)
  qed
  moreover have "filter (\<lambda>p. fst p \<notin> fst ` set xs) (buildIndex xs) = []"
  proof -
    have "fst p \<in> fst ` set xs" if "p \<in> set (buildIndex xs)" for p
    proof -
      from that have "map_of (rev xs) (fst p) = Some (snd p)"
        by (simp add: set_buildIndex split_beta)
      then have "(fst p, snd p) \<in> set (rev xs)" by (rule map_of_SomeD)
      then show ?thesis by (metis fst_conv image_eqI set_rev)
    qed
    then show ?thesis by (simp add: filter_empty_conv)
  qed
  moreover have "rangeMap ord [] = []"
    using assms(1) by (simp add: rangeMap_def map_iteration_nil)
  ultimately show ?thesis by (simp add: mergeNamed_split)
qed

lemma mergeEnvLoop_mergeLoop:
  assumes "\<And>k v. (k, v) \<in> set idx \<Longrightarrow> v \<noteq> ''''"
  shows "mergeEnvLoop es idx = mergeLoop (\<lambda>n b v. v) es idx"
  using assms
proof (induction es arbitrary: idx)
  case Nil
  then show ?case by simp
next
  case (Cons e es)
  obtain n v1 where e: "e = (n, v1)" by (cases e)
  have del: "\<And>k v. (k, v) \<in> set (AList.delete n idx) \<Longrightarrow> v \<noteq> ''''"
    using Cons.prems by (auto simp: AList.delete_eq)
  show ?case
  proof (cases "map_of idx n")
    case None
    then show ?thesis using Cons.IH [OF Cons.prems] by (simp add: e lookupString_def)
  next
    case (Some v)
    then have "v \<noteq> ''''" using Cons.prems by (auto dest: map_of_SomeD)
    with Some show ?thesis using Cons.IH [OF del] by (simp add: e lookupString_def)
  qed
qed

lemma mergeController_env:
  assumes "list_all (\<lambda>(k, v). v \<noteq> '''') (Env c2)"
  shows "Env (mergeController ord c1 c2) = mergeNamed ord (\<lambda>n b v. v) (Env c1) (Env c2)"
proof -
  have "\<And>k v. (k, v) \<in> set (buildIndex (Env c2)) \<Longrightarrow> v \<noteq> ''''"
    using assms by (auto simp: set_buildIndex list_all_iff dest!: map_of_SomeD)
  then have "mergeEnvLoop (Env c1) (buildIndex (Env c2)) =
      mergeLoop (\<lambda>n b v. v) (Env c1) (buildIndex (Env c2))"
    by (rule mergeEnvLoop_mergeLoop)
  then show ?thesis by (simp add: mergeController_def mergeNamed_def split_beta)
qed

lemma mergeString_again: "mergeString (mergeString a b) b = mergeString a b"
  by (simp add: mergeString_def)

lemma mergeString_self: "mergeString a a = a"
  by (simp add: mergeString_def)

lemma mergeController_scalars:
  "DeploymentName (mergeController ord c1 c2) = DeploymentName c1"
  "controllerNamespace (mergeController ord c1 c2) =
     mergeString (controllerNamespace c1) (controllerNamespace c2)"
  "RegistrationClientURI (mergeController ord c1 c2) =
     mergeString (RegistrationClientURI c1) (RegistrationClientURI c2)"
  "RegistrationAccessToken (mergeController ord c1 c2) =
     mergeString (RegistrationAccessToken c1) (RegistrationAccessToken c2)"
  by (simp_all add: mergeController_def split_beta)

lemma mergeController_again:
  assumes "map_iteration ord" and "map_iteration ord'"
    and "list_all (\<lambda>(k, v). v \<noteq> '''') (Env c2)"
  shows "mergeController ord' (mergeController ord c1 c2) c2 = mergeController ord c1 c2"
proof (rule Controller.equality)
  show "Env (mergeController ord' (mergeController ord c1 c2) c2) =
      Env (mergeController ord c1 c2)"
    unfolding mergeController_env [OF assms(3)]
    by (rule mergeNamed_again [OF assms(1,2)]) simp_all
qed (simp_all add: mergeController_scalars mergeString_again)

lemma mergeController_self:
  assumes "map_iteration ord" and "distinct (map fst (Env c))"
    and "list_all (\<lambda>(k, v). v \<noteq> '''') (Env c)"
  shows "mergeController ord c c = c"
proof (rule Controller.equality)
  show "Env (mergeController ord c c) = Env c"
    unfolding mergeController_env [OF assms(3)]
    by (rule mergeNamed_self [OF assms(1,2)]) simp
qed (simp_all add: mergeController_scalars mergeString_self)

lemma mergeServer_again: "mergeServer (mergeServer s1 s2) s2 = mergeServer s1 s2"
  by (simp add: mergeServer_def mergeString_again)

lemma mergeServer_self: "mergeServer s s = s"
  by (simp add: mergeServer_def mergeString_self)

lemma mergeCluster_again: "mergeCluster (mergeCluster s1 s2) s2 = mergeCluster s1 s2"
  by (simp add: mergeCluster_def mergeString_again)

lemma mergeCluster_self: "mergeCluster s s = s"
  by (simp add: mergeCluster_def mergeString_self)

lemma mergeContext_again: "mergeContext (mergeContext s1 s2) s2 = mergeContext s1 s2"
  by (simp add: mergeContext_def mergeString_again)

lemma mergeContext_self: "mergeContext s s = s"
  by (simp add: mergeContext_def mergeString_self)

lemma mergeAuthorization_again:
  "mergeAuthorization (mergeAuthorization a1 a2) a2 = mergeAuthorization a1 a2"
  by (simp add: mergeAuthorization_def Let_def)

lemma mergeAuthorization_self:
  assumes "Token (Credential a) = None \<or> Client (Credential a) = None"
  shows "mergeAuthorization a a = a"
  using assms
  by (auto simp: mergeAuthorization_def Let_def tokenPresent_def clientPresent_def
      split: option.splits)

text \<open>
  Merging an overlay a second time changes nothing when the overlay is repeatable
  (its authorizations hold at most one credential, its controllers' environment
  variables have distinct names and values that are not empty), whatever the orders of
  the maps in the two merges. The environment variables with an empty value are where
  it fails (\<open>cfgEnvOverlay\<close> above).
\<close>

lemma mergeConfig_repeat:
  assumes os: "orders_ok os" and os': "orders_ok os'" and rep: "repeatableOverlay c2"
  shows "mergeConfig os' (mergeConfig os c1 c2) c2 = mergeConfig os c1 c2"
proof (rule Config.equality)
  note o = os [unfolded orders_ok_def] and o' = os' [unfolded orders_ok_def]
  show "Servers (mergeConfig os' (mergeConfig os c1 c2) c2) = Servers (mergeConfig os c1 c2)"
    unfolding mergeConfig_lists using o o'
    by (intro mergeNamed_again) (simp_all add: mergeServer_again mergeServer_self)
  show "Clusters (mergeConfig os' (mergeConfig os c1 c2) c2) = Clusters (mergeConfig os c1 c2)"
    unfolding mergeConfig_lists using o o'
    by (intro mergeNamed_again) (simp_all add: mergeCluster_again mergeCluster_self)
  show "Contexts (mergeConfig os' (mergeConfig os c1 c2) c2) = Contexts (mergeConfig os c1 c2)"
    unfolding mergeConfig_lists using o o'
    by (intro mergeNamed_again) (simp_all add: mergeContext_again mergeContext_self)
  show "Authorizations (mergeConfig os' (mergeConfig os c1 c2) c2) =
      Authorizations (mergeConfig os c1 c2)"
    unfolding mergeConfig_lists
  proof (rule mergeNamed_again)
    fix n v assume "map_of (rev (Authorizations c2)) n = Some v"
    then have "(n, v) \<in> set (Authorizations c2)" by (auto dest: map_of_SomeD)
    with rep have "Token (Credential v) = None \<or> Client (Credential v) = None"
      by (auto simp: repeatableOverlay_def list_all_iff)
    then show "mergeAuthorization v v = v" by (rule mergeAuthorization_self)
  qed (use o o' in \<open>simp_all add: mergeAuthorization_again\<close>)
  show "Controllers (mergeConfig os' (mergeConfig os c1 c2) c2) =
      Controllers (mergeConfig os c1 c2)"
    unfolding mergeConfig_lists
  proof (rule mergeNamed_again)
    fix n v assume "map_of (rev (Controllers c2)) n = Some v"
    then have "(n, v) \<in> set (Controllers c2)" by (auto dest: map_of_SomeD)
    with rep have e: "distinct (map fst (Env v))" "list_all (\<lambda>(k, v). v \<noteq> '''') (Env v)"
      by (auto simp: repeatableOverlay_def list_all_iff)
    from o o' have m: "map_iteration (envOrd os n)" "map_iteration (envOrd os' n)" by simp_all
    show "mergeController (envOrd os' n) v v = v"
      using m(2) e by (rule mergeController_self)
    show "mergeController (envOrd os' n) (mergeController (envOrd os n) b v) v =
        mergeController (envOrd os n) b v" for b
      using m e(2) by (rule mergeController_again)
  qed (use o o' in simp_all)
qed (simp_all add: mergeConfig_lists mergeString_again)

end
